theory Spec2Isabelle
  imports Main
begin

section \<open>JavaScript values used by the YAML parser\<close>

text \<open>
  Strings are \<^typ>\<open>string\<close>. A JavaScript number is either \<open>NaN\<close>, one of the two
  infinities, or a finite value. A finite value is kept as the exact decimal \<open>m * 10 ^ e\<close>
  read from the text (\<open>Finite m e\<close>); the rounding of that value to a double, and with
  it the overflow of a large value to an infinity, is not modelled, and no property
  below depends on it.
\<close>

datatype JSNumber = NaN | Infinity | NegInfinity | Finite int int

text \<open>What the code throws: a string (\<^verbatim>\<open>throw `Invalid boolean "..."`\<close>), or the
  \<open>TypeError\<close> the runtime raises when a property of \<open>undefined\<close> is read or written.\<close>

datatype error = Throw string | TypeError

definition isDigit :: "char \<Rightarrow> bool" where
  "isDigit c = (c \<in> set ''0123456789'')"

definition isOctDigit :: "char \<Rightarrow> bool" where
  "isOctDigit c = (c \<in> set ''01234567'')"

definition isHexDigit :: "char \<Rightarrow> bool" where
  "isHexDigit c = (c \<in> set ''0123456789abcdefABCDEF'')"

text \<open>The ASCII members of \<open>StrWhiteSpaceChar\<close>: TAB, LF, VT, FF, CR and SP. The builtins
  also skip the white space beyond ASCII (such as the no-break space), which a text of
  8-bit characters does not have as one character.\<close>

definition isWhiteSpace :: "char \<Rightarrow> bool" where
  "isWhiteSpace c = (of_char c \<in> {9, 10, 11, 12, 13, 32 :: nat})"

text \<open>The value of a digit in a radix up to 36; 36 for a character that is no digit.\<close>

definition digitValue :: "char \<Rightarrow> nat" where
  "digitValue c =
     (let n = (of_char c :: nat) in
      if 48 \<le> n \<and> n \<le> 57 then n - 48
      else if 97 \<le> n \<and> n \<le> 122 then n - 87
      else if 65 \<le> n \<and> n \<le> 90 then n - 55
      else 36)"

definition digitsValue :: "nat \<Rightarrow> string \<Rightarrow> nat" where
  "digitsValue r ds = foldl (\<lambda>a c. a * r + digitValue c) 0 ds"

definition isSign :: "char \<Rightarrow> bool" where
  "isSign c = (c = CHR ''-'' \<or> c = CHR ''+'')"

text \<open>The regular-expression fragment \<^verbatim>\<open>[-+]?\<close> at the start of a text: the rest
  after an optional sign.\<close>

definition dropSign :: "string \<Rightarrow> string" where
  "dropSign s = (case s of [] \<Rightarrow> [] | c # r \<Rightarrow> if isSign c then r else s)"

definition isNegative :: "string \<Rightarrow> bool" where
  "isNegative s = (case s of [] \<Rightarrow> False | c # r \<Rightarrow> c = CHR ''-'')"

text \<open>
  The builtin \<^verbatim>\<open>parseInt(string, radix)\<close>: leading white space and a sign are skipped;
  with no radix the radix is 10, or 16 after a \<^verbatim>\<open>0x\<close> prefix; the longest run of
  digits of the radix is read, and the result is \<open>NaN\<close> when that run is empty.
\<close>

definition parseInt :: "string \<Rightarrow> nat option \<Rightarrow> JSNumber" where
  "parseInt input radix =
     (let t = dropWhile isWhiteSpace input;
          u = dropSign t;
          r0 = (case radix of None \<Rightarrow> 10 | Some r \<Rightarrow> if r = 0 then 10 else r);
          strip = (case radix of None \<Rightarrow> True | Some r \<Rightarrow> r = 0 \<or> r = 16);
          hex = (strip \<and> (take 2 u = ''0x'' \<or> take 2 u = ''0X''));
          r = (if hex then 16 else r0);
          v = (if hex then drop 2 u else u);
          ds = takeWhile (\<lambda>c. digitValue c < r) v
      in if r < 2 \<or> 36 < r then NaN
         else if ds = [] then NaN
         else Finite ((if isNegative t then - 1 else 1) * int (digitsValue r ds)) 0)"

text \<open>The exponent part \<^verbatim>\<open>[eE][-+]?[0-9]+\<close> at the start of a text, when there is
  one: its value and its length.\<close>

definition exponentPart :: "string \<Rightarrow> (int \<times> nat) option" where
  "exponentPart r =
     (case r of
        [] \<Rightarrow> None
      | c # r' \<Rightarrow>
          if c = CHR ''e'' \<or> c = CHR ''E'' then
            (let ds = takeWhile isDigit (dropSign r') in
             if ds = [] then None
             else Some ((if isNegative r' then - 1 else 1) * int (digitsValue 10 ds),
                        1 + (length r' - length (dropSign r')) + length ds))
          else None)"

text \<open>
  The builtin \<^verbatim>\<open>parseFloat(string)\<close>: leading white space is skipped and the longest
  prefix that is a \<open>StrDecimalLiteral\<close> is read (an optional sign, then \<^verbatim>\<open>Infinity\<close>,
  or digits with an optional fraction, or a dot and digits, each with an optional
  exponent); the result is \<open>NaN\<close> when there is no such prefix.
\<close>

definition parseFloat :: "string \<Rightarrow> JSNumber" where
  "parseFloat input =
     (let t = dropWhile isWhiteSpace input;
          u = dropSign t;
          sgn = (if isNegative t then - 1 else 1 :: int);
          ip = takeWhile isDigit u;
          r1 = dropWhile isDigit u;
          fp = (case r1 of [] \<Rightarrow> [] | c # r' \<Rightarrow> if c = CHR ''.'' then takeWhile isDigit r' else []);
          r2 = (case r1 of [] \<Rightarrow> [] | c # r' \<Rightarrow> if c = CHR ''.'' then dropWhile isDigit r' else r1)
      in if take 8 u = ''Infinity'' then (if isNegative t then NegInfinity else Infinity)
         else if ip = [] \<and> fp = [] then NaN
         else Finite (sgn * int (digitsValue 10 (ip @ fp)))
                ((case exponentPart r2 of None \<Rightarrow> 0 | Some (e, n) \<Rightarrow> e) - int (length fp)))"

definition isNaN :: "JSNumber \<Rightarrow> bool" where
  "isNaN n = (n = NaN)"

section \<open>Scalar parsers\<close>

definition parseYamlBoolean :: "string \<Rightarrow> error + bool" where
  "parseYamlBoolean input =
     (if input \<in> set [''true'', ''True'', ''TRUE''] then Inr True
      else if input \<in> set [''false'', ''False'', ''FALSE''] then Inr False
      else Inl (Throw (''Invalid boolean \"'' @ input @ ''\"'')))"

definition safeParseYamlInteger :: "string \<Rightarrow> JSNumber" where
  "safeParseYamlInteger input =
     (if take 2 input = ''0o'' then parseInt (drop 2 input) (Some 8)
      else parseInt input None)"

definition parseYamlInteger :: "string \<Rightarrow> error + JSNumber" where
  "parseYamlInteger input =
     (let result = safeParseYamlInteger input in
      if isNaN result then Inl (Throw (''Invalid integer \"'' @ input @ ''\"''))
      else Inr result)"

text \<open>The expression \<^verbatim>\<open>/^([-+])?(?:\.inf|\.Inf|\.INF)$/\<close>, also used (without the
  capture) by the classifier.\<close>

definition infinityRe :: "string \<Rightarrow> bool" where
  "infinityRe s = (dropSign s \<in> set [''.inf'', ''.Inf'', ''.INF''])"

definition parseYamlFloat :: "string \<Rightarrow> error + JSNumber" where
  "parseYamlFloat input =
     (if input \<in> set [''.nan'', ''.NaN'', ''.NAN''] then Inr NaN
      else if infinityRe input then Inr (if isNegative input then NegInfinity else Infinity)
      else (let result = parseFloat input in
            if \<not> isNaN result then Inr result
            else Inl (Throw (''Invalid float \"'' @ input @ ''\"''))))"

section \<open>Scalar type classifier\<close>

datatype ScalarType = ScalarType_null | ScalarType_bool | ScalarType_int | ScalarType_float
  | ScalarType_string

text \<open>A scalar of the YAML parser. \<open>value'\<close> is \<open>None\<close> when the field is \<open>null\<close> or
  \<open>undefined\<close>; \<open>singleQuoted\<close> is false when the field is missing.\<close>

record YAMLScalar =
  startPosition :: int
  endPosition :: int
  value' :: "string option"
  doubleQuoted :: bool
  plainScalar :: bool
  singleQuoted :: bool

text \<open>\<^verbatim>\<open>/^[-+]?[0-9]+$/\<close>\<close>

definition base10 :: "string \<Rightarrow> bool" where
  "base10 s = (let d = dropSign s in d \<noteq> [] \<and> list_all isDigit d)"

text \<open>\<^verbatim>\<open>/^0o[0-7]+$/\<close>\<close>

definition base8 :: "string \<Rightarrow> bool" where
  "base8 s = (take 2 s = ''0o'' \<and> drop 2 s \<noteq> [] \<and> list_all isOctDigit (drop 2 s))"

text \<open>\<^verbatim>\<open>/^0x[0-9a-fA-F]+$/\<close>\<close>

definition base16 :: "string \<Rightarrow> bool" where
  "base16 s = (take 2 s = ''0x'' \<and> drop 2 s \<noteq> [] \<and> list_all isHexDigit (drop 2 s))"

text \<open>\<^verbatim>\<open>([eE][-+]?[0-9]+)?$\<close>: the rest of the text is empty or one exponent.\<close>

definition exponentOpt :: "string \<Rightarrow> bool" where
  "exponentOpt r =
     (case r of
        [] \<Rightarrow> True
      | c # r' \<Rightarrow> (c = CHR ''e'' \<or> c = CHR ''E'') \<and>
                 (let d = dropSign r' in d \<noteq> [] \<and> list_all isDigit d))"

text \<open>\<^verbatim>\<open>/^[-+]?(\.[0-9]+|[0-9]+(\.[0-9]*)?)([eE][-+]?[0-9]+)?$/\<close>\<close>

definition floatRe :: "string \<Rightarrow> bool" where
  "floatRe s =
     (let u = dropSign s;
          ip = takeWhile isDigit u;
          r = dropWhile isDigit u
      in if ip = [] then
           (case r of
              [] \<Rightarrow> False
            | c # r' \<Rightarrow> c = CHR ''.'' \<and> takeWhile isDigit r' \<noteq> [] \<and>
                       exponentOpt (dropWhile isDigit r'))
         else
           (case r of
              [] \<Rightarrow> True
            | c # r' \<Rightarrow> if c = CHR ''.'' then exponentOpt (dropWhile isDigit r')
                       else exponentOpt r))"

definition determineScalarType :: "YAMLScalar option \<Rightarrow> ScalarType" where
  "determineScalarType node =
     (case node of
        None \<Rightarrow> ScalarType_null
      | Some n \<Rightarrow>
          if doubleQuoted n \<or> \<not> plainScalar n \<or> singleQuoted n then ScalarType_string
          else (case value' n of
                  None \<Rightarrow> ScalarType_null
                | Some v \<Rightarrow>
                    if v \<in> set [''null'', ''Null'', ''NULL'', ''~''] then ScalarType_null
                    else if v \<in> set [''true'', ''True'', ''TRUE'', ''false'', ''False'', ''FALSE'']
                      then ScalarType_bool
                    else if base10 v \<or> base8 v \<or> base16 v then ScalarType_int
                    else if floatRe v \<or> infinityRe v \<or> v \<in> set [''.nan'', ''.NaN'', ''.NAN'']
                      then ScalarType_float
                    else ScalarType_string))"

section \<open>The normalized tree\<close>

text \<open>
  The nodes of the JSON parser are objects that refer to each other: a container holds
  its children and every node holds a back-reference to its parent. They live in a
  store, a list of nodes in which the address of a node is its index; \<open>new\<close> appends.
\<close>

text \<open>
  Modelled from the spec: the node classes (\<open>ObjectASTNode\<close>, \<open>PropertyASTNode\<close>, ...)
  belong to the JSON parser module, which is not among the sources. Each constructor
  stores its arguments in the common fields \<open>parent\<close>, \<open>location\<close> (the constructor's
  \<open>name\<close>), \<open>start\<close> and \<open>end\<close>; a property takes its span from its key until the
  normalizer assigns its end; \<open>addProperty\<close> and \<open>addItem\<close> append a child, and
  \<open>addProperty\<close> ignores an absent node. The tests of the repository show that the
  constructor of a property also links its key (the key's path ends in its own text);
  the spec does not say so and the model leaves the key as the normalizer built it. No
  property below reads the parent or the location of a key.
\<close>

type_synonym addr = nat

datatype Segment = NoSegment | Name string | Index nat

datatype NodeData =
    ObjectData "addr list"
  | ArrayData "addr list"
  | PropertyData addr "addr option"
  | StringData bool "string option"
  | NumberData bool "JSNumber option"
  | BooleanData bool
  | NullData

record ASTNode =
  parent :: "addr option"
  location :: Segment
  start :: int
  end' :: int
  content :: NodeData

type_synonym store = "ASTNode list"

definition new :: "ASTNode \<Rightarrow> store \<Rightarrow> addr \<times> store" where
  "new n h = (length h, h @ [n])"

definition ObjectASTNode :: "addr option \<Rightarrow> Segment \<Rightarrow> int \<Rightarrow> int \<Rightarrow> ASTNode" where
  "ObjectASTNode p name s e =
     \<lparr>parent = p, location = name, start = s, end' = e, content = ObjectData []\<rparr>"

definition ArrayASTNode :: "addr option \<Rightarrow> Segment \<Rightarrow> int \<Rightarrow> int \<Rightarrow> ASTNode" where
  "ArrayASTNode p name s e =
     \<lparr>parent = p, location = name, start = s, end' = e, content = ArrayData []\<rparr>"

definition StringASTNode :: "addr option \<Rightarrow> Segment \<Rightarrow> bool \<Rightarrow> int \<Rightarrow> int \<Rightarrow> ASTNode" where
  "StringASTNode p name isKey s e =
     \<lparr>parent = p, location = name, start = s, end' = e, content = StringData isKey None\<rparr>"

definition NumberASTNode :: "addr option \<Rightarrow> Segment \<Rightarrow> int \<Rightarrow> int \<Rightarrow> ASTNode" where
  "NumberASTNode p name s e =
     \<lparr>parent = p, location = name, start = s, end' = e, content = NumberData False None\<rparr>"

definition BooleanASTNode :: "addr option \<Rightarrow> Segment \<Rightarrow> bool \<Rightarrow> int \<Rightarrow> int \<Rightarrow> ASTNode" where
  "BooleanASTNode p name b s e =
     \<lparr>parent = p, location = name, start = s, end' = e, content = BooleanData b\<rparr>"

definition NullASTNode :: "addr option \<Rightarrow> Segment \<Rightarrow> int \<Rightarrow> int \<Rightarrow> ASTNode" where
  "NullASTNode p name s e =
     \<lparr>parent = p, location = name, start = s, end' = e, content = NullData\<rparr>"

definition PropertyASTNode :: "addr option \<Rightarrow> addr \<Rightarrow> store \<Rightarrow> ASTNode" where
  "PropertyASTNode p keyNode h =
     \<lparr>parent = p, location = NoSegment, start = start (h ! keyNode), end' = end' (h ! keyNode),
      content = PropertyData keyNode None\<rparr>"

text \<open>Assignments to a field of the node at an address.\<close>

definition setContent :: "addr \<Rightarrow> NodeData \<Rightarrow> store \<Rightarrow> store" where
  "setContent a c h = h[a := (h ! a)\<lparr>content := c\<rparr>]"

definition setLocation :: "addr \<Rightarrow> Segment \<Rightarrow> store \<Rightarrow> store" where
  "setLocation a l h = h[a := (h ! a)\<lparr>location := l\<rparr>]"

definition setEnd :: "addr \<Rightarrow> int \<Rightarrow> store \<Rightarrow> store" where
  "setEnd a e h = h[a := (h ! a)\<lparr>end' := e\<rparr>]"

definition addProperty :: "addr \<Rightarrow> addr option \<Rightarrow> store \<Rightarrow> store" where
  "addProperty a node h =
     (case node of
        None \<Rightarrow> h
      | Some p \<Rightarrow> (case content (h ! a) of
                    ObjectData ps \<Rightarrow> setContent a (ObjectData (ps @ [p])) h
                  | _ \<Rightarrow> h))"

definition addItem :: "addr \<Rightarrow> addr \<Rightarrow> store \<Rightarrow> store" where
  "addItem a item h =
     (case content (h ! a) of
        ArrayData its \<Rightarrow> setContent a (ArrayData (its @ [item])) h
      | _ \<Rightarrow> h)"

definition setValue :: "addr \<Rightarrow> addr \<Rightarrow> store \<Rightarrow> store" where
  "setValue a v h =
     (case content (h ! a) of
        PropertyData k _ \<Rightarrow> setContent a (PropertyData k (Some v)) h
      | _ \<Rightarrow> h)"

text \<open>The value of a property node, when the address holds a property.\<close>

definition valueOf :: "ASTNode \<Rightarrow> addr option" where
  "valueOf n = (case content n of PropertyData k v \<Rightarrow> v | _ \<Rightarrow> None)"

section \<open>The YAML parser's node graph\<close>

text \<open>
  The nodes the YAML parser hands over, by \<open>kind\<close>, each with its \<open>startPosition\<close> and
  \<open>endPosition\<close>. A mapping entry has a key and a value that may be absent; an item of a
  sequence may be absent (\<open>null\<close>).
\<close>

datatype YAMLNode =
    MAP int int "YAMLNode list"
  | MAPPING int int YAMLScalar "YAMLNode option"
  | SEQ int int "YAMLNode option list"
  | SCALAR YAMLScalar
  | ANCHOR_REF int int
  | INCLUDE_REF int int

fun nodeStart :: "YAMLNode \<Rightarrow> int" where
  "nodeStart (MAP s e ms) = s"
| "nodeStart (MAPPING s e k v) = s"
| "nodeStart (SEQ s e its) = s"
| "nodeStart (SCALAR sc) = startPosition sc"
| "nodeStart (ANCHOR_REF s e) = s"
| "nodeStart (INCLUDE_REF s e) = s"

fun nodeEnd :: "YAMLNode \<Rightarrow> int" where
  "nodeEnd (MAP s e ms) = e"
| "nodeEnd (MAPPING s e k v) = e"
| "nodeEnd (SEQ s e its) = e"
| "nodeEnd (SCALAR sc) = endPosition sc"
| "nodeEnd (ANCHOR_REF s e) = e"
| "nodeEnd (INCLUDE_REF s e) = e"

definition segmentOf :: "string option \<Rightarrow> Segment" where
  "segmentOf v = (case v of None \<Rightarrow> NoSegment | Some s \<Rightarrow> Name s)"

section \<open>The normalizer\<close>

text \<open>The scalar case of \<open>recursivelyBuildAst\<close>. With an absent value the classifier
  answers \<open>null\<close> or \<open>string\<close>, so the three parsers are never handed an absent text; those
  branches give what the runtime gives for \<open>null\<close>.\<close>

definition buildScalar :: "addr option \<Rightarrow> YAMLScalar \<Rightarrow> store \<Rightarrow> error + (addr option \<times> store)" where
  "buildScalar p instance h =
     (let s = startPosition instance; e = endPosition instance; v = value' instance in
      case determineScalarType (Some instance) of
        ScalarType_null \<Rightarrow>
          (let (a, h1) = new (NullASTNode p NoSegment s e) h in Inr (Some a, h1))
      | ScalarType_bool \<Rightarrow>
          (case (case v of None \<Rightarrow> Inl (Throw ''Invalid boolean \"null\"'')
                         | Some t \<Rightarrow> parseYamlBoolean t) of
             Inl x \<Rightarrow> Inl x
           | Inr b \<Rightarrow> (let (a, h1) = new (BooleanASTNode p NoSegment b s e) h in Inr (Some a, h1)))
      | ScalarType_int \<Rightarrow>
          (let (a, h1) = new (NumberASTNode p NoSegment s e) h in
           case (case v of None \<Rightarrow> Inl TypeError | Some t \<Rightarrow> parseYamlInteger t) of
             Inl x \<Rightarrow> Inl x
           | Inr n \<Rightarrow> Inr (Some a, setContent a (NumberData True (Some n)) h1))
      | ScalarType_float \<Rightarrow>
          (let (a, h1) = new (NumberASTNode p NoSegment s e) h in
           case (case v of None \<Rightarrow> Inl (Throw ''Invalid float \"null\"'')
                         | Some t \<Rightarrow> parseYamlFloat t) of
             Inl x \<Rightarrow> Inl x
           | Inr n \<Rightarrow> Inr (Some a, setContent a (NumberData False (Some n)) h1))
      | ScalarType_string \<Rightarrow>
          (let (a, h1) = new (StringASTNode p NoSegment False s e) h in
           Inr (Some a, setContent a (StringData False v) h1)))"

text \<open>
  \<open>recursivelyBuildAst parent node\<close> on a store: the address of the node built, or
  \<open>None\<close> for \<open>undefined\<close>, with the new store; \<open>Inl\<close> when an exception leaves the
  function. The two loops are \<open>addProperties\<close> (over \<open>instance.mappings\<close>) and \<open>addItems\<close>
  (over \<open>instance.items\<close>, with the running \<open>count\<close>). Writing \<open>location\<close> of an
  \<open>undefined\<close> node raises a \<open>TypeError\<close>.
\<close>

fun recursivelyBuildAst :: "addr option \<Rightarrow> YAMLNode option \<Rightarrow> store \<Rightarrow> error + (addr option \<times> store)"
  and addProperties :: "addr \<Rightarrow> YAMLNode list \<Rightarrow> store \<Rightarrow> error + store"
  and addItems :: "addr \<Rightarrow> nat \<Rightarrow> YAMLNode option list \<Rightarrow> store \<Rightarrow> error + store"
where
  "recursivelyBuildAst p None h = Inr (None, h)"
| "recursivelyBuildAst p (Some (MAP s e mappings)) h =
     (let (result, h1) = new (ObjectASTNode p NoSegment s e) h in
      case addProperties result mappings h1 of
        Inl x \<Rightarrow> Inl x
      | Inr h2 \<Rightarrow> Inr (Some result, h2))"
| "recursivelyBuildAst p (Some (MAPPING s e key v)) h =
     (let (keyNode, h1) = new (StringASTNode None NoSegment True (startPosition key) (endPosition key)) h;
          h2 = setContent keyNode (StringData True (value' key)) h1;
          (result, h3) = new (PropertyASTNode p keyNode h2) h2;
          h4 = setEnd result e h3
      in case (case v of
                 Some vn \<Rightarrow> recursivelyBuildAst (Some result) (Some vn) h4
               | None \<Rightarrow> (let (a, h5) = new (NullASTNode p (segmentOf (value' key)) s e) h4
                          in Inr (Some a, h5))) of
           Inl x \<Rightarrow> Inl x
         | Inr (None, h5) \<Rightarrow> Inl TypeError
         | Inr (Some valueNode, h5) \<Rightarrow>
             Inr (Some result,
                  setValue result valueNode (setLocation valueNode (segmentOf (value' key)) h5)))"
| "recursivelyBuildAst p (Some (SEQ s e items)) h =
     (let (result, h1) = new (ArrayASTNode p NoSegment s e) h in
      case addItems result 0 items h1 of
        Inl x \<Rightarrow> Inl x
      | Inr h2 \<Rightarrow> Inr (Some result, h2))"
| "recursivelyBuildAst p (Some (SCALAR instance)) h = buildScalar p instance h"
| "recursivelyBuildAst p (Some (ANCHOR_REF s e)) h = Inr (None, h)"
| "recursivelyBuildAst p (Some (INCLUDE_REF s e)) h = Inr (None, h)"
| "addProperties result [] h = Inr h"
| "addProperties result (mapping # mappings) h =
     (case recursivelyBuildAst (Some result) (Some mapping) h of
        Inl x \<Rightarrow> Inl x
      | Inr (node, h1) \<Rightarrow> addProperties result mappings (addProperty result node h1))"
| "addItems result count [] h = Inr h"
| "addItems result count (item # items) h =
     (case recursivelyBuildAst (Some result) item h of
        Inl x \<Rightarrow> Inl x
      | Inr (None, h1) \<Rightarrow> Inl TypeError
      | Inr (Some itemNode, h1) \<Rightarrow>
          addItems result (Suc count) items
            (addItem result itemNode (setLocation itemNode (Index count) h1)))"

section \<open>Diagnostics and \<open>parse\<close>\<close>

record Mark =
  position :: int
  buffer :: string

record YAMLException =
  message :: string
  reason :: string
  mark :: Mark

text \<open>A diagnostic of the document: its message and the span \<open>location.start\<close>,
  \<open>location.end\<close>. The code of every diagnostic built here is \<open>ErrorCode.Undefined\<close>.\<close>

record Problem =
  problemMessage :: string
  locationStart :: int
  locationEnd :: int

record JSONDocument =
  root :: "addr option"
  errors :: "Problem list"
  warnings :: "Problem list"
  nodes :: store

definition convertError :: "YAMLException \<Rightarrow> Problem" where
  "convertError e =
     (let bufferLength = int (length (buffer (mark e))) - 2 in
      \<lparr>problemMessage = message e,
       locationStart = min (position (mark e)) (bufferLength - 1),
       locationEnd = bufferLength\<rparr>)"

definition duplicateKeyReason :: string where
  "duplicateKeyReason = ''duplicate key''"

text \<open>
  \<open>parse\<close>, with the YAML parser's \<open>safeLoad\<close> as a parameter: for a text it yields the
  root node and the exceptions recorded on it, or nothing (\<open>undefined\<close>). With no
  node there is no root, and reading \<open>yamlDoc.startPosition\<close> raises a \<open>TypeError\<close>.
\<close>

definition parse :: "(string \<Rightarrow> (YAMLNode \<times> YAMLException list) option) \<Rightarrow> string \<Rightarrow> error + JSONDocument" where
  "parse safeLoad text' =
     (case safeLoad text' of
        None \<Rightarrow> Inl TypeError
      | Some (yamlDoc, yamlErrors) \<Rightarrow>
          (case recursivelyBuildAst None (Some yamlDoc) [] of
             Inl x \<Rightarrow> Inl x
           | Inr (r, h) \<Rightarrow>
               Inr \<lparr>root = r,
                    errors =
                      (if r = None
                       then [\<lparr>problemMessage = ''Expected a YAML object, array or literal'',
                              locationStart = nodeStart yamlDoc, locationEnd = nodeEnd yamlDoc\<rparr>]
                       else []) @
                      map convertError (filter (\<lambda>e. reason e \<noteq> duplicateKeyReason) yamlErrors),
                    warnings =
                      map convertError (filter (\<lambda>e. reason e = duplicateKeyReason) yamlErrors),
                    nodes = h\<rparr>))"

section \<open>The formatter\<close>

text \<open>\<open>Array.prototype.join\<close>.\<close>

fun join :: "string \<Rightarrow> string list \<Rightarrow> string" where
  "join sep [] = []"
| "join sep [x] = x"
| "join sep (x # y # ys) = x @ sep @ join sep (y # ys)"

text \<open>The single edit \<open>format\<close> returns: it replaces the text from offset 0 to the end
  of the original text.\<close>

record TextEdit =
  rangeStart :: nat
  rangeEnd :: nat
  newText :: string

text \<open>
  \<open>format\<close>, with its collaborators as parameters: \<open>loadAll\<close> yields the documents of a
  text in order, \<open>safeDump\<close> dumps one document with an indent width, and \<open>EOL\<close> is the
  platform's line terminator.
\<close>

definition format :: "(string \<Rightarrow> 'd list) \<Rightarrow> ('d \<Rightarrow> nat \<Rightarrow> string) \<Rightarrow> string \<Rightarrow> string \<Rightarrow> nat \<Rightarrow> TextEdit list" where
  "format loadAll safeDump EOL text' tabSize =
     (let documents = loadAll text';
          newText =
            (if length documents = 1 then safeDump (documents ! 0) tabSize
             else (let formatted = map (\<lambda>d. safeDump d tabSize) documents in
                   ''%YAML 1.2'' @ EOL @ ''---'' @ EOL @
                   join (''...'' @ EOL @ ''---'' @ EOL) formatted @ ''...'' @ EOL))
      in [\<lparr>rangeStart = 0, rangeEnd = length text', newText = newText\<rparr>])"

text \<open>One framed document: the start marker, the body and the end marker.\<close>

definition framed :: "string \<Rightarrow> string \<Rightarrow> string" where
  "framed EOL body = ''---'' @ EOL @ body @ ''...'' @ EOL"

section \<open>Binary search over line starts\<close>

text \<open>
  Modelled from the spec: the position calculator (\<open>binarySearch\<close>,
  \<open>insertionPointReturnValue\<close>) is not among the sources; only its tests are. Following
  the spec, \<open>binarySearch\<close> on a sorted sequence returns the index of a hit, and on a
  miss the insertion point under a reversible negative encoding, which
  \<open>insertionPointReturnValue\<close> computes. \<open>search xs x lo hi\<close> looks in the
  positions from \<open>lo\<close> up to but excluding \<open>hi\<close>.
\<close>

definition insertionPointReturnValue :: "int \<Rightarrow> int" where
  "insertionPointReturnValue pt = - pt - 1"

function search :: "'a::linorder list \<Rightarrow> 'a \<Rightarrow> nat \<Rightarrow> nat \<Rightarrow> int" where
  "search xs x lo hi =
     (if lo < hi then
        (let idx = (lo + hi) div 2 in
         if xs ! idx = x then int idx
         else if xs ! idx < x then search xs x (idx + 1) hi
         else search xs x lo idx)
      else insertionPointReturnValue (int lo))"
  by pat_completeness auto
termination
  by (relation "measure (\<lambda>(xs, x, lo, hi). hi - lo)") auto

declare search.simps [simp del]

definition binarySearch :: "'a::linorder list \<Rightarrow> 'a \<Rightarrow> int" where
  "binarySearch xs x = search xs x 0 (length xs)"

section \<open>Texts for the examples\<close>

text \<open>Letter case is ignored by comparing lower-cased texts.\<close>

definition lowerCase :: "string \<Rightarrow> string" where
  "lowerCase s =
     map (\<lambda>c. case map_of (zip ''ABCDEFGHIJKLMNOPQRSTUVWXYZ'' ''abcdefghijklmnopqrstuvwxyz'') c of
                None \<Rightarrow> c | Some d \<Rightarrow> d) s"

text \<open>A plain (unquoted) scalar and a double-quoted scalar with the given span and text.\<close>

definition plain :: "int \<Rightarrow> int \<Rightarrow> string \<Rightarrow> YAMLScalar" where
  "plain s e v = \<lparr>startPosition = s, endPosition = e, value' = Some v,
                  doubleQuoted = False, plainScalar = True, singleQuoted = False\<rparr>"

definition quoted :: "int \<Rightarrow> int \<Rightarrow> string \<Rightarrow> YAMLScalar" where
  "quoted s e v = \<lparr>startPosition = s, endPosition = e, value' = Some v,
                   doubleQuoted = True, plainScalar = False, singleQuoted = False\<rparr>"

section \<open>Invariants of the store\<close>

text \<open>\<open>extends h h'\<close>: the store \<open>h'\<close> has every node of \<open>h\<close>, unchanged, at its address.\<close>

definition extends :: "store \<Rightarrow> store \<Rightarrow> bool" where
  "extends h h' = (length h \<le> length h' \<and> (\<forall>i<length h. h' ! i = h ! i))"

text \<open>\<open>fresh p r h h'\<close>: the node returned, if any, was allocated after \<open>h\<close> and its parent
  is \<open>p\<close>.\<close>

definition fresh :: "addr option \<Rightarrow> addr option \<Rightarrow> store \<Rightarrow> store \<Rightarrow> bool" where
  "fresh p r h h' =
     (\<forall>a. r = Some a \<longrightarrow> length h \<le> a \<and> a < length h' \<and> parent (h' ! a) = p)"

text \<open>\<open>keeps a h h'\<close>: a loop that fills the container at \<open>a\<close> changes no other node of
  \<open>h\<close>, and no parent.\<close>

definition keeps :: "addr \<Rightarrow> store \<Rightarrow> store \<Rightarrow> bool" where
  "keeps a h h' =
     (length h \<le> length h' \<and> (\<forall>i<length h. i \<noteq> a \<longrightarrow> h' ! i = h ! i) \<and>
      (\<forall>i<length h. parent (h' ! i) = parent (h ! i)))"

text \<open>The stores built from the entry \<open>bar:\<close> with no value and from \<open>bar: 5\<close>, under an
  object at address 0.\<close>

definition elidedStore :: store where
  "elidedStore =
     [\<lparr>parent = None, location = NoSegment, start = 0, end' = 12, content = ObjectData []\<rparr>,
      \<lparr>parent = None, location = NoSegment, start = 0, end' = 3,
         content = StringData True (Some ''bar'')\<rparr>,
      \<lparr>parent = Some 0, location = NoSegment, start = 0, end' = 6,
         content = PropertyData 1 (Some 3)\<rparr>,
      \<lparr>parent = Some 0, location = Name ''bar'', start = 0, end' = 6, content = NullData\<rparr>]"

definition explicitStore :: store where
  "explicitStore =
     [\<lparr>parent = None, location = NoSegment, start = 0, end' = 12, content = ObjectData []\<rparr>,
      \<lparr>parent = None, location = NoSegment, start = 0, end' = 3,
         content = StringData True (Some ''bar'')\<rparr>,
      \<lparr>parent = Some 0, location = NoSegment, start = 0, end' = 6,
         content = PropertyData 1 (Some 3)\<rparr>,
      \<lparr>parent = Some 2, location = Name ''bar'', start = 5, end' = 6,
         content = NumberData True (Some (Finite 5 0))\<rparr>]"

section \<open>Example inputs\<close>

text \<open>
  What the YAML parser yields for four texts: a sequence whose second entry has an alias
  as its value (\<open>anchorText\<close>), a flow mapping with a duplicate key whose second value is
  an alias (\<open>duplicateAliasText\<close>), a flow mapping with a duplicate key (\<open>duplicateText\<close>)
  and an unbalanced bracket (\<open>malformedText\<close>); and the documents \<open>parse\<close> builds from the
  last two. The parser appends a line feed and a zero character to the buffer of a mark.
\<close>

definition newline :: string where
  "newline = [CHR 0x0A]"

definition anchorText :: string where
  "anchorText = ''- foo: &ref 5'' @ newline @ ''- bar: *ref''"

definition anchorLoad :: "string \<Rightarrow> (YAMLNode \<times> YAMLException list) option" where
  "anchorLoad t =
     (if t = anchorText then
        Some (SEQ 0 25
                [Some (MAP 2 13 [MAPPING 2 13 (plain 2 5 ''foo'') (Some (SCALAR (plain 12 13 ''5'')))]),
                 Some (MAP 16 25 [MAPPING 16 25 (plain 16 19 ''bar'') (Some (ANCHOR_REF 21 25))])],
              [])
      else None)"

definition duplicateAliasText :: string where
  "duplicateAliasText = ''{\"a\": &x 1, \"a\": *x}''"

definition duplicateAliasDiagnostics :: "YAMLException list" where
  "duplicateAliasDiagnostics =
     [\<lparr>message = ''duplicate key'', reason = ''duplicate key'',
       mark = \<lparr>position = 12, buffer = duplicateAliasText @ newline @ [CHR 0x00]\<rparr>\<rparr>]"

definition duplicateAliasLoad :: "string \<Rightarrow> (YAMLNode \<times> YAMLException list) option" where
  "duplicateAliasLoad t =
     (if t = duplicateAliasText then
        Some (MAP 0 20
                [MAPPING 1 10 (quoted 1 4 ''a'') (Some (SCALAR (plain 9 10 ''1''))),
                 MAPPING 12 19 (quoted 12 15 ''a'') (Some (ANCHOR_REF 17 19))],
              duplicateAliasDiagnostics)
      else None)"

definition duplicateText :: string where
  "duplicateText = ''{\"a\": 1, \"a\": 2}''"

definition malformedText :: string where
  "malformedText = ''{''"

definition exampleLoad :: "string \<Rightarrow> (YAMLNode \<times> YAMLException list) option" where
  "exampleLoad t =
     (if t = duplicateText then
        Some (MAP 0 16
                [MAPPING 1 7 (quoted 1 4 ''a'') (Some (SCALAR (plain 6 7 ''1''))),
                 MAPPING 9 15 (quoted 9 12 ''a'') (Some (SCALAR (plain 14 15 ''2'')))],
              [\<lparr>message = ''duplicate key'', reason = ''duplicate key'',
                mark = \<lparr>position = 9, buffer = duplicateText @ newline @ [CHR 0x00]\<rparr>\<rparr>])
      else if t = malformedText then
        Some (MAP 0 1 [],
              [\<lparr>message = ''unexpected end of the stream within a flow collection'',
                reason = ''unexpected end of the stream within a flow collection'',
                mark = \<lparr>position = 1, buffer = malformedText @ newline @ [CHR 0x00]\<rparr>\<rparr>])
      else None)"

definition duplicateDocument :: JSONDocument where
  "duplicateDocument =
     \<lparr>root = Some 0, errors = [],
      warnings = [\<lparr>problemMessage = ''duplicate key'', locationStart = 9, locationEnd = 16\<rparr>],
      nodes =
        [\<lparr>parent = None, location = NoSegment, start = 0, end' = 16, content = ObjectData [2, 5]\<rparr>,
         \<lparr>parent = None, location = NoSegment, start = 1, end' = 4,
            content = StringData True (Some ''a'')\<rparr>,
         \<lparr>parent = Some 0, location = NoSegment, start = 1, end' = 7,
            content = PropertyData 1 (Some 3)\<rparr>,
         \<lparr>parent = Some 2, location = Name ''a'', start = 6, end' = 7,
            content = NumberData True (Some (Finite 1 0))\<rparr>,
         \<lparr>parent = None, location = NoSegment, start = 9, end' = 12,
            content = StringData True (Some ''a'')\<rparr>,
         \<lparr>parent = Some 0, location = NoSegment, start = 9, end' = 15,
            content = PropertyData 4 (Some 6)\<rparr>,
         \<lparr>parent = Some 5, location = Name ''a'', start = 14, end' = 15,
            content = NumberData True (Some (Finite 2 0))\<rparr>]\<rparr>"

definition malformedDocument :: JSONDocument where
  "malformedDocument =
     \<lparr>root = Some 0,
      errors = [\<lparr>problemMessage = ''unexpected end of the stream within a flow collection'',
                 locationStart = 0, locationEnd = 1\<rparr>],
      warnings = [],
      nodes = [\<lparr>parent = None, location = NoSegment, start = 0, end' = 1, content = ObjectData []\<rparr>]\<rparr>"

text \<open>Collaborators of \<open>format\<close> for the examples: a text with no document, a text with two
  documents, and a dumper that writes the document on one line.\<close>

definition noDocuments :: "string \<Rightarrow> unit list" where
  "noDocuments t = []"

definition twoDocuments :: "string \<Rightarrow> string list" where
  "twoDocuments t = [''a: 1'', ''b: 2'']"

definition dumpLine :: "string \<Rightarrow> nat \<Rightarrow> string" where
  "dumpLine d n = d @ newline"

section \<open>Trees that \<open>recursivelyBuildAst\<close> builds without an exception\<close>

text \<open>A reference node is one for which \<open>recursivelyBuildAst\<close> yields \<open>undefined\<close>. A tree
  is \<open>allPresent\<close> when every item of a sequence and every explicit value of a mapping
  entry is there and is no reference node.\<close>

fun isReference :: "YAMLNode \<Rightarrow> bool" where
  "isReference (ANCHOR_REF s e) = True"
| "isReference (INCLUDE_REF s e) = True"
| "isReference n = False"

fun allPresent :: "YAMLNode \<Rightarrow> bool" where
  "allPresent (MAP s e mappings) = (\<forall>m \<in> set mappings. allPresent m)"
| "allPresent (MAPPING s e key v) =
     (case v of None \<Rightarrow> True | Some vn \<Rightarrow> \<not> isReference vn \<and> allPresent vn)"
| "allPresent (SEQ s e items) =
     (\<forall>item \<in> set items. case item of None \<Rightarrow> False
                                      | Some n \<Rightarrow> \<not> isReference n \<and> allPresent n)"
| "allPresent (SCALAR sc) = True"
| "allPresent (ANCHOR_REF s e) = True"
| "allPresent (INCLUDE_REF s e) = True"

section \<open>Properties of the scalar classifier and the scalar parsers\<close>

lemmas scalar_defs = parseFloat_def isNaN_def isWhiteSpace_def isDigit_def isNegative_def
  dropSign_def isSign_def infinityRe_def exponentPart_def digitsValue_def digitValue_def
  base10_def base8_def base16_def floatRe_def exponentOpt_def isOctDigit_def isHexDigit_def

text \<open>
  C3. A scalar whose quoting metadata marks it non-plain (double-quoted, single-quoted,
  or not a plain scalar) is classified as a string, whatever its text.
\<close>

theorem determineScalarType_quoted:
  "doubleQuoted n \<or> \<not> plainScalar n \<or> singleQuoted n \<Longrightarrow>
   determineScalarType (Some n) = ScalarType_string"
  by (simp add: determineScalarType_def)

theorem determineScalarType_quoted_witness:
  "determineScalarType (Some (quoted 0 6 ''true'')) = ScalarType_string \<and>
   determineScalarType (Some (plain 0 4 ''true'')) = ScalarType_bool"
  using determineScalarType_quoted [of "quoted 0 6 ''true''"]
  by (simp add: plain_def quoted_def determineScalarType_def)

text \<open>
  C7, as stated, fails: the plain texts \<open>nULL\<close> and \<open>tRUE\<close> equal \<open>null\<close> and \<open>true\<close>
  up to letter case, and the classifier answers \<open>string\<close> for both.
\<close>

theorem determineScalarType_mixed_case_counterexample:
  "lowerCase ''nULL'' = ''null'' \<and> lowerCase ''tRUE'' = ''true'' \<and>
   determineScalarType (Some (plain 0 4 ''nULL'')) = ScalarType_string \<and>
   determineScalarType (Some (plain 0 4 ''tRUE'')) = ScalarType_string"
  by (simp add: lowerCase_def plain_def determineScalarType_def scalar_defs)

text \<open>
  C7, amended. For a plain scalar the classifier answers \<open>null\<close> when the text is exactly
  one of \<open>null\<close>, \<open>Null\<close>, \<open>NULL\<close>, \<open>~\<close>, and \<open>bool\<close> when the text is exactly one of
  \<open>true\<close>, \<open>True\<close>, \<open>TRUE\<close>, \<open>false\<close>, \<open>False\<close>, \<open>FALSE\<close>.
\<close>

theorem determineScalarType_null_bool:
  assumes "\<not> doubleQuoted n" and "plainScalar n" and "\<not> singleQuoted n"
  shows "(value' n \<in> Some ` {''null'', ''Null'', ''NULL'', ''~''} \<longrightarrow>
            determineScalarType (Some n) = ScalarType_null) \<and>
         (value' n \<in> Some ` {''true'', ''True'', ''TRUE'', ''false'', ''False'', ''FALSE''} \<longrightarrow>
            determineScalarType (Some n) = ScalarType_bool)"
  using assms by (auto simp add: determineScalarType_def)

theorem determineScalarType_null_bool_witness:
  "determineScalarType (Some (plain 0 4 ''Null'')) = ScalarType_null \<and>
   determineScalarType (Some (plain 0 1 ''~'')) = ScalarType_null \<and>
   determineScalarType (Some (plain 0 5 ''FALSE'')) = ScalarType_bool"
  using determineScalarType_null_bool [of "plain 0 4 ''Null''"]
    determineScalarType_null_bool [of "plain 0 1 ''~''"]
    determineScalarType_null_bool [of "plain 0 5 ''FALSE''"]
  by (simp add: plain_def)

text \<open>
  C8, as stated, fails: \<open>.iNF\<close> is a spelling of \<open>.inf\<close> in some letter case, and
  \<open>parseYamlFloat\<close> throws for it.
\<close>

theorem parseYamlFloat_mixed_case_counterexample:
  "lowerCase ''.iNF'' = ''.inf'' \<and>
   parseYamlFloat ''.iNF'' = Inl (Throw ''Invalid float \".iNF\"'')"
  by (simp add: lowerCase_def parseYamlFloat_def scalar_defs)

text \<open>
  C8, amended. \<open>parseYamlFloat\<close> returns \<open>NaN\<close> for \<open>.nan\<close>, \<open>.NaN\<close>, \<open>.NAN\<close>; negative
  infinity for \<open>-.inf\<close>, \<open>-.Inf\<close>, \<open>-.INF\<close>; positive infinity for \<open>.inf\<close>, \<open>.Inf\<close>, \<open>.INF\<close>
  with or without a leading \<open>+\<close>; for every other input it returns what \<open>parseFloat\<close>
  gives, and throws the message \<open>Invalid float "input"\<close> exactly when \<open>parseFloat\<close>
  gives \<open>NaN\<close>.
\<close>

theorem parseYamlFloat_cases:
  "parseYamlFloat input =
     (if input \<in> {''.nan'', ''.NaN'', ''.NAN''} then Inr NaN
      else if input \<in> {''-.inf'', ''-.Inf'', ''-.INF''} then Inr NegInfinity
      else if input \<in> {''.inf'', ''.Inf'', ''.INF'', ''+.inf'', ''+.Inf'', ''+.INF''}
        then Inr Infinity
      else if parseFloat input = NaN then Inl (Throw (''Invalid float \"'' @ input @ ''\"''))
      else Inr (parseFloat input))"
  by (simp add: parseYamlFloat_def infinityRe_def dropSign_def isSign_def isNegative_def
      isNaN_def split: list.splits)

theorem parseYamlFloat_cases_witness:
  "parseYamlFloat ''.NaN'' = Inr NaN \<and> parseYamlFloat ''-.Inf'' = Inr NegInfinity \<and>
   parseYamlFloat ''+.INF'' = Inr Infinity \<and> parseYamlFloat ''1.5e3'' = Inr (Finite 15 2) \<and>
   parseYamlFloat ''abc'' = Inl (Throw ''Invalid float \"abc\"'')"
  using parseYamlFloat_cases [of "''.NaN''"] parseYamlFloat_cases [of "''-.Inf''"]
    parseYamlFloat_cases [of "''+.INF''"] parseYamlFloat_cases [of "''1.5e3''"]
    parseYamlFloat_cases [of "''abc''"]
  by (simp add: scalar_defs)

text \<open>
  C9. \<open>parseYamlBoolean\<close> returns true for exactly \<open>true\<close>, \<open>True\<close>, \<open>TRUE\<close>, false for
  exactly \<open>false\<close>, \<open>False\<close>, \<open>FALSE\<close>, and throws the message \<open>Invalid boolean "input"\<close>
  for every other input; \<open>yes\<close> and \<open>no\<close> are among those.
\<close>

theorem parseYamlBoolean_cases:
  "(parseYamlBoolean input = Inr True \<longleftrightarrow> input \<in> {''true'', ''True'', ''TRUE''}) \<and>
   (parseYamlBoolean input = Inr False \<longleftrightarrow> input \<in> {''false'', ''False'', ''FALSE''}) \<and>
   (input \<notin> {''true'', ''True'', ''TRUE'', ''false'', ''False'', ''FALSE''} \<longrightarrow>
      parseYamlBoolean input = Inl (Throw (''Invalid boolean \"'' @ input @ ''\"'')))"
  by (auto simp add: parseYamlBoolean_def)

theorem parseYamlBoolean_cases_witness:
  "parseYamlBoolean ''yes'' = Inl (Throw ''Invalid boolean \"yes\"'') \<and>
   parseYamlBoolean ''no'' = Inl (Throw ''Invalid boolean \"no\"'') \<and>
   parseYamlBoolean ''True'' = Inr True \<and> parseYamlBoolean ''FALSE'' = Inr False"
  using parseYamlBoolean_cases [of "''yes''"] parseYamlBoolean_cases [of "''no''"]
    parseYamlBoolean_cases [of "''True''"] parseYamlBoolean_cases [of "''FALSE''"]
  by simp

section \<open>The store under \<open>recursivelyBuildAst\<close>\<close>

lemma length_setContent [simp]: "length (setContent a c h) = length h"
  by (simp add: setContent_def)
lemma length_setLocation [simp]: "length (setLocation a c h) = length h"
  by (simp add: setLocation_def)
lemma length_setEnd [simp]: "length (setEnd a c h) = length h"
  by (simp add: setEnd_def)
lemma length_addProperty [simp]: "length (addProperty a n h) = length h"
  by (simp add: addProperty_def split: option.splits NodeData.splits)
lemma length_addItem [simp]: "length (addItem a n h) = length h"
  by (simp add: addItem_def split: NodeData.splits)
lemma length_setValue [simp]: "length (setValue a n h) = length h"
  by (simp add: setValue_def split: NodeData.splits)

lemma nth_setContent_other [simp]: "i \<noteq> a \<Longrightarrow> setContent a c h ! i = h ! i"
  by (simp add: setContent_def)
lemma nth_setLocation_other [simp]: "i \<noteq> a \<Longrightarrow> setLocation a c h ! i = h ! i"
  by (simp add: setLocation_def)
lemma nth_setEnd_other [simp]: "i \<noteq> a \<Longrightarrow> setEnd a c h ! i = h ! i"
  by (simp add: setEnd_def)
lemma nth_addProperty_other [simp]: "i \<noteq> a \<Longrightarrow> addProperty a n h ! i = h ! i"
  by (simp add: addProperty_def split: option.splits NodeData.splits)
lemma nth_addItem_other [simp]: "i \<noteq> a \<Longrightarrow> addItem a n h ! i = h ! i"
  by (simp add: addItem_def split: NodeData.splits)
lemma nth_setValue_other [simp]: "i \<noteq> a \<Longrightarrow> setValue a n h ! i = h ! i"
  by (simp add: setValue_def split: NodeData.splits)

lemma parent_setContent [simp]: "parent (setContent a c h ! i) = parent (h ! i)"
  by (cases "i = a"; cases "a < length h"; simp add: setContent_def list_update_beyond)
lemma parent_setLocation [simp]: "parent (setLocation a c h ! i) = parent (h ! i)"
  by (cases "i = a"; cases "a < length h"; simp add: setLocation_def list_update_beyond)
lemma parent_setEnd [simp]: "parent (setEnd a c h ! i) = parent (h ! i)"
  by (cases "i = a"; cases "a < length h"; simp add: setEnd_def list_update_beyond)
lemma parent_addProperty [simp]: "parent (addProperty a n h ! i) = parent (h ! i)"
  by (simp add: addProperty_def split: option.splits NodeData.splits)
lemma parent_addItem [simp]: "parent (addItem a n h ! i) = parent (h ! i)"
  by (simp add: addItem_def split: NodeData.splits)
lemma parent_setValue [simp]: "parent (setValue a n h ! i) = parent (h ! i)"
  by (simp add: setValue_def split: NodeData.splits)

lemma buildScalar_store:
  "buildScalar p sc h = Inr (r, h') \<Longrightarrow> extends h h' \<and> fresh p r h h'"
  by (auto simp add: buildScalar_def Let_def new_def extends_def fresh_def nth_append
      NullASTNode_def BooleanASTNode_def NumberASTNode_def StringASTNode_def setContent_def
      split: ScalarType.splits sum.splits option.splits)

lemma build_store:
  "(\<forall>r h'. recursivelyBuildAst p n h = Inr (r, h') \<longrightarrow> extends h h' \<and> fresh p r h h')"
  "(\<forall>h'. addProperties res ms h = Inr h' \<longrightarrow> keeps res h h')"
  "(\<forall>h'. addItems res cnt its h = Inr h' \<longrightarrow> keeps res h h')"
proof (induction p n h and res ms h and res cnt its h rule: recursivelyBuildAst_addProperties_addItems.induct)
  case (1 p h)
  then show ?case by (simp add: extends_def fresh_def)
next
  case (2 p s e mappings h)
  show ?case
  proof (intro allI impI)
    fix r h'
    assume a: "recursivelyBuildAst p (Some (MAP s e mappings)) h = Inr (r, h')"
    define h1 where "h1 = h @ [ObjectASTNode p NoSegment s e]"
    from a have b: "addProperties (length h) mappings h1 = Inr h'" and r: "r = Some (length h)"
      by (auto simp add: new_def h1_def split: sum.splits)
    from 2 [of "(length h, h1)" "length h" h1] b have k: "keeps (length h) h1 h'"
      by (simp add: new_def h1_def)
    have "parent (h1 ! length h) = p" by (simp add: h1_def ObjectASTNode_def)
    with k show "extends h h' \<and> fresh p r h h'" unfolding r
      by (auto simp add: extends_def fresh_def keeps_def h1_def nth_append)
  qed
next
  case (3 p s e key v h)
  show ?case
  proof (intro allI impI)
    fix r h'
    assume a: "recursivelyBuildAst p (Some (MAPPING s e key v)) h = Inr (r, h')"
    define keyNode where "keyNode = length h"
    define h1 where "h1 = h @ [StringASTNode None NoSegment True (startPosition key) (endPosition key)]"
    define h2 where "h2 = setContent keyNode (StringData True (value' key)) h1"
    define result where "result = length h2"
    define h3 where "h3 = h2 @ [PropertyASTNode p keyNode h2]"
    define h4 where "h4 = setEnd result e h3"
    have l4: "length h4 = length h + 2" and res: "result = length h + 1"
      by (simp_all add: h4_def h3_def h2_def h1_def result_def)
    have e4: "extends h h4"
      by (auto simp add: extends_def h4_def h3_def h2_def h1_def result_def keyNode_def nth_append)
    have p4: "parent (h4 ! result) = p"
      by (simp add: h4_def h3_def result_def PropertyASTNode_def)
    show "extends h h' \<and> fresh p r h h'"
    proof (cases v)
      case None
      with a have r: "r = Some result"
        and h': "h' = setValue result (length h4) (setLocation (length h4) (segmentOf (value' key))
                        (h4 @ [NullASTNode p (segmentOf (value' key)) s e]))"
        by (simp_all add: new_def Let_def keyNode_def h1_def h2_def result_def h3_def h4_def)
      from e4 l4 res p4 show ?thesis unfolding r h'
        by (auto simp add: extends_def fresh_def nth_append)
    next
      case (Some vn)
      with a obtain valueNode h5 where
        b: "recursivelyBuildAst (Some result) (Some vn) h4 = Inr (Some valueNode, h5)"
        and r: "r = Some result"
        and h': "h' = setValue result valueNode (setLocation valueNode (segmentOf (value' key)) h5)"
        by (auto simp add: new_def Let_def keyNode_def h1_def h2_def result_def h3_def h4_def
            split: sum.splits option.splits)
      have "extends h4 h5 \<and> fresh (Some result) (Some valueNode) h4 h5"
        using 3 [of "(keyNode, h1)" keyNode h1 h2 "(result, h3)" result h3 h4 vn] b Some
        by (simp add: new_def keyNode_def h1_def h2_def result_def h3_def h4_def)
      then have e5: "extends h4 h5" and v: "length h4 \<le> valueNode" "valueNode < length h5"
        "parent (h5 ! valueNode) = Some result" by (simp_all add: fresh_def)
      from e4 e5 l4 res p4 v show ?thesis unfolding r h'
        by (auto simp add: extends_def fresh_def)
    qed
  qed
next
  case (4 p s e items h)
  show ?case
  proof (intro allI impI)
    fix r h'
    assume a: "recursivelyBuildAst p (Some (SEQ s e items)) h = Inr (r, h')"
    define h1 where "h1 = h @ [ArrayASTNode p NoSegment s e]"
    from a have b: "addItems (length h) 0 items h1 = Inr h'" and r: "r = Some (length h)"
      by (auto simp add: new_def h1_def split: sum.splits)
    from 4 [of "(length h, h1)" "length h" h1] b have k: "keeps (length h) h1 h'"
      by (simp add: new_def h1_def)
    have "parent (h1 ! length h) = p" by (simp add: h1_def ArrayASTNode_def)
    with k show "extends h h' \<and> fresh p r h h'" unfolding r
      by (auto simp add: extends_def fresh_def keeps_def h1_def nth_append)
  qed
next
  case (5 p sc h)
  then show ?case using buildScalar_store by simp
next
  case (6 p s e h)
  then show ?case by (simp add: extends_def fresh_def)
next
  case (7 p s e h)
  then show ?case by (simp add: extends_def fresh_def)
next
  case (8 result h)
  then show ?case by (simp add: keeps_def)
next
  case (9 result mapping mappings h)
  show ?case
  proof (intro allI impI)
    fix h'
    assume a: "addProperties result (mapping # mappings) h = Inr h'"
    then obtain node h1 where b: "recursivelyBuildAst (Some result) (Some mapping) h = Inr (node, h1)"
      and c: "addProperties result mappings (addProperty result node h1) = Inr h'"
      by (auto split: sum.splits)
    from 9(1) b have e: "extends h h1" by blast
    from 9(2) [OF b refl] c have k: "keeps result (addProperty result node h1) h'" by blast
    from e k show "keeps result h h'"
      by (auto simp add: extends_def keeps_def)
  qed
next
  case (10 result count h)
  then show ?case by (simp add: keeps_def)
next
  case (11 result count item items h)
  show ?case
  proof (intro allI impI)
    fix h'
    assume a: "addItems result count (item # items) h = Inr h'"
    then obtain itemNode h1 where b: "recursivelyBuildAst (Some result) item h = Inr (Some itemNode, h1)"
      and c: "addItems result (Suc count) items
                (addItem result itemNode (setLocation itemNode (Index count) h1)) = Inr h'"
      by (auto split: sum.splits option.splits)
    from 11(1) b have e: "extends h h1" and f: "fresh (Some result) (Some itemNode) h h1" by blast+
    from 11(2) [OF b refl refl] c
    have k: "keeps result (addItem result itemNode (setLocation itemNode (Index count) h1)) h'"
      by blast
    from f have g: "length h \<le> itemNode" by (simp add: fresh_def)
    from e k g show "keeps result h h'"
      by (auto simp add: extends_def keeps_def)
  qed
qed

section \<open>Parent references of mapping values\<close>

lemma nth_setContent_same: "a < length h \<Longrightarrow> setContent a c h ! a = (h ! a)\<lparr>content := c\<rparr>"
  by (simp add: setContent_def)

lemma nth_setLocation_same: "a < length h \<Longrightarrow> setLocation a c h ! a = (h ! a)\<lparr>location := c\<rparr>"
  by (simp add: setLocation_def)

lemma valueOf_setValue:
  "a < length h \<Longrightarrow> content (h ! a) = PropertyData k None \<Longrightarrow> valueOf (setValue a v h ! a) = Some v"
  by (simp add: setValue_def valueOf_def nth_setContent_same)

text \<open>
  C10. When \<open>recursivelyBuildAst\<close> returns from a mapping entry, it returns a property
  node whose parent is the given parent. With an explicit value, the parent of the
  property's value node is the property node. With an elided value, the value node is a
  null node spanning the entry whose parent is the given parent, the enclosing object,
  and not the property node that holds it as its value.
\<close>

theorem mapping_value_parent:
  assumes a: "recursivelyBuildAst p (Some (MAPPING s e key v)) h = Inr (r, h')"
    and valid: "\<forall>q. p = Some q \<longrightarrow> q < length h"
  shows "\<exists>result valueNode.
           r = Some result \<and> parent (h' ! result) = p \<and> p \<noteq> Some result \<and>
           valueOf (h' ! result) = Some valueNode \<and>
           (case v of
              Some vn \<Rightarrow> parent (h' ! valueNode) = Some result
            | None \<Rightarrow> parent (h' ! valueNode) = p \<and> content (h' ! valueNode) = NullData \<and>
                      start (h' ! valueNode) = s \<and> end' (h' ! valueNode) = e)"
proof -
  define keyNode where "keyNode = length h"
  define h1 where "h1 = h @ [StringASTNode None NoSegment True (startPosition key) (endPosition key)]"
  define h2 where "h2 = setContent keyNode (StringData True (value' key)) h1"
  define result where "result = length h2"
  define h3 where "h3 = h2 @ [PropertyASTNode p keyNode h2]"
  define h4 where "h4 = setEnd result e h3"
  have l4: "length h4 = length h + 2" and res: "result = length h + 1"
    by (simp_all add: h4_def h3_def h2_def h1_def result_def)
  have p4: "parent (h4 ! result) = p"
    by (simp add: h4_def h3_def result_def PropertyASTNode_def)
  have c4: "content (h4 ! result) = PropertyData keyNode None"
    by (simp add: h4_def h3_def result_def PropertyASTNode_def setEnd_def)
  from valid res have ne: "p \<noteq> Some result" by auto
  show ?thesis
  proof (cases v)
    case None
    define h5 where "h5 = h4 @ [NullASTNode p (segmentOf (value' key)) s e]"
    define h6 where "h6 = setLocation (length h4) (segmentOf (value' key)) h5"
    from None a have r: "r = Some result" and h': "h' = setValue result (length h4) h6"
      by (simp_all add: new_def Let_def keyNode_def h1_def h2_def result_def h3_def h4_def
          h5_def h6_def)
    have c6: "content (h6 ! result) = PropertyData keyNode None"
      using c4 l4 res by (simp add: h6_def h5_def nth_append)
    have v1: "valueOf (h' ! result) = Some (length h4)"
      unfolding h' using c6 l4 res by (intro valueOf_setValue) (simp_all add: h6_def h5_def)
    have n6: "h6 ! length h4 = (NullASTNode p (segmentOf (value' key)) s e)\<lparr>location := segmentOf (value' key)\<rparr>"
      by (simp add: h6_def h5_def nth_setLocation_same)
    have n7: "h' ! length h4 = h6 ! length h4"
      unfolding h' using l4 res by simp
    have p7: "parent (h' ! result) = p"
      unfolding h' using p4 l4 res by (simp add: h6_def h5_def nth_append)
    from r v1 n6 n7 p7 ne None show ?thesis
      by (simp add: NullASTNode_def)
  next
    case (Some vn)
    with a obtain valueNode h5 where
      b: "recursivelyBuildAst (Some result) (Some vn) h4 = Inr (Some valueNode, h5)"
      and r: "r = Some result"
      and h': "h' = setValue result valueNode (setLocation valueNode (segmentOf (value' key)) h5)"
      by (auto simp add: new_def Let_def keyNode_def h1_def h2_def result_def h3_def h4_def
          split: sum.splits option.splits)
    from build_store(1) b have "extends h4 h5 \<and> fresh (Some result) (Some valueNode) h4 h5"
      by blast
    then have e5: "extends h4 h5" and v: "length h4 \<le> valueNode" "valueNode < length h5"
      "parent (h5 ! valueNode) = Some result" by (simp_all add: fresh_def)
    from e5 l4 res have k5: "h5 ! result = h4 ! result" and l5: "result < length h5"
      by (simp_all add: extends_def)
    from v l4 res have vr: "valueNode \<noteq> result" by simp
    have v1: "valueOf (h' ! result) = Some valueNode"
      unfolding h' using c4 k5 l5 vr by (intro valueOf_setValue) simp_all
    have p7: "parent (h' ! result) = p" unfolding h' using p4 k5 by simp
    have p8: "parent (h' ! valueNode) = Some result" unfolding h' using v by simp
    from r v1 p7 p8 ne Some show ?thesis by simp
  qed
qed

lemmas store_defs = new_def ObjectASTNode_def ArrayASTNode_def StringASTNode_def NumberASTNode_def
  BooleanASTNode_def NullASTNode_def PropertyASTNode_def setContent_def setLocation_def setEnd_def
  addProperty_def addItem_def setValue_def valueOf_def segmentOf_def buildScalar_def
  determineScalarType_def plain_def quoted_def parseYamlBoolean_def parseYamlInteger_def
  safeParseYamlInteger_def parseInt_def parseYamlFloat_def

theorem mapping_value_parent_witness:
  "recursivelyBuildAst (Some 0) (Some (MAPPING 0 6 (plain 0 3 ''bar'') None))
     [ObjectASTNode None NoSegment 0 12] = Inr (Some 2, elidedStore) \<and>
   valueOf (elidedStore ! 2) = Some 3 \<and> parent (elidedStore ! 2) = Some 0 \<and>
   parent (elidedStore ! 3) = Some 0 \<and> content (elidedStore ! 3) = NullData \<and>
   start (elidedStore ! 3) = 0 \<and> end' (elidedStore ! 3) = 6 \<and>
   recursivelyBuildAst (Some 0)
     (Some (MAPPING 0 6 (plain 0 3 ''bar'') (Some (SCALAR (plain 5 6 ''5'')))))
     [ObjectASTNode None NoSegment 0 12] = Inr (Some 2, explicitStore) \<and>
   valueOf (explicitStore ! 2) = Some 3 \<and> parent (explicitStore ! 2) = Some 0 \<and>
   parent (explicitStore ! 3) = Some 2"
proof -
  have e1: "recursivelyBuildAst (Some 0) (Some (MAPPING 0 6 (plain 0 3 ''bar'') None))
            [ObjectASTNode None NoSegment 0 12] = Inr (Some 2, elidedStore)"
    by (simp add: store_defs elidedStore_def)
  have e2: "recursivelyBuildAst (Some 0)
            (Some (MAPPING 0 6 (plain 0 3 ''bar'') (Some (SCALAR (plain 5 6 ''5'')))))
            [ObjectASTNode None NoSegment 0 12] = Inr (Some 2, explicitStore)"
    by (simp add: store_defs scalar_defs explicitStore_def)
  have v: "\<forall>q. Some (0::nat) = Some q \<longrightarrow> q < length [ObjectASTNode None NoSegment 0 12]"
    by simp
  from mapping_value_parent [OF e1 v] mapping_value_parent [OF e2 v] e1 e2
  show ?thesis by (auto simp add: elidedStore_def explicitStore_def valueOf_def)
qed

section \<open>Properties of \<open>parse\<close>\<close>

text \<open>
  C1 says that \<open>parse\<close> returns a document for every text and lets no failure escape. On
  the text \<open>- foo: &ref 5\<close>, \<open>- bar: *ref\<close> (two lines) the value of the second entry is an
  alias node, \<open>recursivelyBuildAst\<close> yields \<open>undefined\<close> for it, and the assignment
  \<open>valueNode.location = key.value\<close> raises a \<open>TypeError\<close> that leaves \<open>parse\<close>.
\<close>

theorem parse_anchor_reference_escapes:
  "parse anchorLoad anchorText = Inl TypeError"
  by (simp add: parse_def anchorLoad_def store_defs scalar_defs)

text \<open>
  C2 says that a document containing duplicate mapping keys parses with no error and at
  least one warning. The text \<open>{"a": &x 1, "a": *x}\<close> has a duplicate key, and the only
  diagnostic of the YAML parser for it is the duplicate key; the value of its second
  entry is an alias node, so the assignment \<open>valueNode.location = key.value\<close> raises a
  \<open>TypeError\<close> and \<open>parse\<close> returns no document, hence no warning.
\<close>

theorem parse_duplicate_key_alias_escapes:
  "parse duplicateAliasLoad duplicateAliasText = Inl TypeError \<and>
   duplicateAliasLoad duplicateAliasText \<noteq> None \<and>
   map reason duplicateAliasDiagnostics = [''duplicate key'']"
  by (simp add: parse_def duplicateAliasLoad_def duplicateAliasDiagnostics_def store_defs
      scalar_defs)

text \<open>
  The partition of the diagnostics. When \<open>parse\<close> returns a document, its warnings are the
  converted diagnostics of the YAML parser whose reason is exactly \<open>duplicate key\<close>, in
  order, and its errors are the converted diagnostics with any other reason, in order,
  after the one error for a missing root when there is no root. So a text for which the
  YAML parser reports only duplicate keys, and at least one, and whose root is built,
  parses with no error and at least one warning; and a text for which it reports a
  diagnostic with another reason parses with at least one error.
\<close>

theorem parse_partitions_diagnostics:
  assumes "safeLoad text' = Some (yamlDoc, yamlErrors)" and "parse safeLoad text' = Inr doc"
  shows "warnings doc = map convertError (filter (\<lambda>e. reason e = ''duplicate key'') yamlErrors) \<and>
         (\<exists>pre. errors doc =
                 pre @ map convertError (filter (\<lambda>e. reason e \<noteq> ''duplicate key'') yamlErrors) \<and>
                length pre \<le> 1 \<and> (pre = [] \<longleftrightarrow> root doc \<noteq> None)) \<and>
         ((\<forall>e \<in> set yamlErrors. reason e = ''duplicate key'') \<and> yamlErrors \<noteq> [] \<and> root doc \<noteq> None
            \<longrightarrow> errors doc = [] \<and> 1 \<le> length (warnings doc)) \<and>
         ((\<exists>e \<in> set yamlErrors. reason e \<noteq> ''duplicate key'') \<longrightarrow> 1 \<le> length (errors doc))"
proof -
  from assms obtain r h where
    doc: "doc = \<lparr>root = r,
                 errors = (if r = None
                           then [\<lparr>problemMessage = ''Expected a YAML object, array or literal'',
                                  locationStart = nodeStart yamlDoc, locationEnd = nodeEnd yamlDoc\<rparr>]
                           else []) @
                          map convertError (filter (\<lambda>e. reason e \<noteq> duplicateKeyReason) yamlErrors),
                 warnings = map convertError (filter (\<lambda>e. reason e = duplicateKeyReason) yamlErrors),
                 nodes = h\<rparr>"
    by (auto simp add: parse_def split: sum.splits)
  have w: "warnings doc = map convertError (filter (\<lambda>e. reason e = ''duplicate key'') yamlErrors)"
    by (simp add: doc duplicateKeyReason_def)
  have e: "errors doc = (if root doc = None
                           then [\<lparr>problemMessage = ''Expected a YAML object, array or literal'',
                                  locationStart = nodeStart yamlDoc, locationEnd = nodeEnd yamlDoc\<rparr>]
                           else []) @
             map convertError (filter (\<lambda>e. reason e \<noteq> ''duplicate key'') yamlErrors)"
    by (simp add: doc duplicateKeyReason_def)
  have p1: "\<exists>pre. errors doc =
                 pre @ map convertError (filter (\<lambda>e. reason e \<noteq> ''duplicate key'') yamlErrors) \<and>
                length pre \<le> 1 \<and> (pre = [] \<longleftrightarrow> root doc \<noteq> None)"
    using e by (cases "root doc = None") auto
  have p2: "(\<forall>e \<in> set yamlErrors. reason e = ''duplicate key'') \<and> yamlErrors \<noteq> [] \<and> root doc \<noteq> None
            \<longrightarrow> errors doc = [] \<and> 1 \<le> length (warnings doc)"
  proof (intro impI, elim conjE)
    assume all: "\<forall>e \<in> set yamlErrors. reason e = ''duplicate key''" and ne: "yamlErrors \<noteq> []"
      and rt: "root doc \<noteq> None"
    from all have f1: "filter (\<lambda>e. reason e \<noteq> ''duplicate key'') yamlErrors = []"
      by (simp add: filter_empty_conv)
    from all have f2: "filter (\<lambda>e. reason e = ''duplicate key'') yamlErrors = yamlErrors"
      by simp
    from ne have "1 \<le> length yamlErrors" by (cases yamlErrors) simp_all
    with f1 f2 e w rt show "errors doc = [] \<and> 1 \<le> length (warnings doc)" by simp
  qed
  have p3: "(\<exists>e \<in> set yamlErrors. reason e \<noteq> ''duplicate key'') \<longrightarrow> 1 \<le> length (errors doc)"
  proof
    assume "\<exists>e \<in> set yamlErrors. reason e \<noteq> ''duplicate key''"
    then have "filter (\<lambda>e. reason e \<noteq> ''duplicate key'') yamlErrors \<noteq> []"
      by (simp add: filter_empty_conv)
    then have "1 \<le> length (filter (\<lambda>e. reason e \<noteq> ''duplicate key'') yamlErrors)"
      by (cases "filter (\<lambda>e. reason e \<noteq> ''duplicate key'') yamlErrors") simp_all
    with e show "1 \<le> length (errors doc)" by simp
  qed
  from w p1 p2 p3 show ?thesis by blast
qed

lemmas example_defs = exampleLoad_def duplicateText_def malformedText_def newline_def
  convertError_def duplicateKeyReason_def

theorem parse_partitions_diagnostics_witness:
  "parse exampleLoad duplicateText = Inr duplicateDocument \<and>
   errors duplicateDocument = [] \<and> length (warnings duplicateDocument) = 1 \<and>
   parse exampleLoad malformedText = Inr malformedDocument \<and>
   length (errors malformedDocument) = 1 \<and> warnings malformedDocument = []"
proof -
  obtain n1 e1 where l1: "exampleLoad duplicateText = Some (n1, [e1])"
    and r1: "reason e1 = ''duplicate key''"
    by (simp add: example_defs)
  obtain n2 e2 where l2: "exampleLoad malformedText = Some (n2, [e2])"
    and r2: "reason e2 \<noteq> ''duplicate key''"
    by (simp add: example_defs)
  have p1: "parse exampleLoad duplicateText = Inr duplicateDocument"
    by (simp add: parse_def example_defs store_defs scalar_defs duplicateDocument_def)
  have p2: "parse exampleLoad malformedText = Inr malformedDocument"
    by (simp add: parse_def example_defs store_defs scalar_defs malformedDocument_def)
  from parse_partitions_diagnostics [OF l1 p1] parse_partitions_diagnostics [OF l2 p2] r1 r2 p1 p2
  show ?thesis
    by (simp add: duplicateDocument_def malformedDocument_def)
qed

section \<open>Properties of the formatter\<close>

text \<open>
  C6 says that for zero or several documents the output is the \<open>%YAML 1.2\<close> header and
  then one framed body per input document. For a text with no document, \<open>format\<close> gives
  the header followed by one start marker and one end marker, a frame around nothing,
  where the claim has no frame at all.
\<close>

theorem format_no_documents:
  "format noDocuments (\<lambda>d n. []) newline [] 2 =
     [\<lparr>rangeStart = 0, rangeEnd = 0,
       newText = ''%YAML 1.2'' @ newline @ ''---'' @ newline @ ''...'' @ newline\<rparr>]"
  by (simp add: format_def noDocuments_def)

lemma join_framed:
  "bodies \<noteq> [] \<Longrightarrow>
   ''---'' @ EOL @ join (''...'' @ EOL @ ''---'' @ EOL) bodies @ ''...'' @ EOL =
   concat (map (framed EOL) bodies)"
proof (induction bodies rule: induct_list012)
  case 1
  then show ?case by simp
next
  case (2 x)
  then show ?case by (simp add: framed_def)
next
  case (3 x y ys)
  then show ?case by (simp add: framed_def)
qed

text \<open>
  The framing of \<open>format\<close> for one document and for two or more: one document is
  replaced by its dump alone; two or more give the \<open>%YAML 1.2\<close> header and then, for each
  document in order, the start marker, the dump and the end marker.
\<close>

theorem format_framing:
  "(\<forall>d. loadAll text' = [d] \<longrightarrow>
      format loadAll safeDump EOL text' tabSize =
        [\<lparr>rangeStart = 0, rangeEnd = length text', newText = safeDump d tabSize\<rparr>]) \<and>
   (2 \<le> length (loadAll text') \<longrightarrow>
      format loadAll safeDump EOL text' tabSize =
        [\<lparr>rangeStart = 0, rangeEnd = length text',
          newText = ''%YAML 1.2'' @ EOL @
                    concat (map (\<lambda>d. framed EOL (safeDump d tabSize)) (loadAll text'))\<rparr>])"
proof (intro conjI allI impI)
  fix d assume "loadAll text' = [d]"
  then show "format loadAll safeDump EOL text' tabSize =
        [\<lparr>rangeStart = 0, rangeEnd = length text', newText = safeDump d tabSize\<rparr>]"
    by (simp add: format_def)
next
  assume two: "2 \<le> length (loadAll text')"
  then have ne: "map (\<lambda>d. safeDump d tabSize) (loadAll text') \<noteq> []" by auto
  from two have n1: "length (loadAll text') \<noteq> 1" by simp
  from join_framed [OF ne, of EOL] n1
  show "format loadAll safeDump EOL text' tabSize =
        [\<lparr>rangeStart = 0, rangeEnd = length text',
          newText = ''%YAML 1.2'' @ EOL @
                    concat (map (\<lambda>d. framed EOL (safeDump d tabSize)) (loadAll text'))\<rparr>]"
    by (simp add: format_def Let_def comp_def map_map)
qed

theorem format_framing_witness:
  "format twoDocuments dumpLine newline ''a: 1'' 2 =
     [\<lparr>rangeStart = 0, rangeEnd = 4,
       newText = ''%YAML 1.2'' @ newline @ ''---'' @ newline @ ''a: 1'' @ newline @ ''...'' @ newline @
                 ''---'' @ newline @ ''b: 2'' @ newline @ ''...'' @ newline\<rparr>] \<and>
   format (\<lambda>t. [t]) dumpLine newline ''a: 1'' 2 =
     [\<lparr>rangeStart = 0, rangeEnd = 4, newText = ''a: 1'' @ newline\<rparr>]"
  using format_framing [of twoDocuments "''a: 1''" dumpLine newline 2]
    format_framing [of "\<lambda>t. [t]" "''a: 1''" dumpLine newline 2]
  by (simp add: twoDocuments_def dumpLine_def framed_def)

section \<open>Properties of the binary search\<close>

lemma search_correct:
  assumes "sorted xs" and "lo \<le> hi" and "hi \<le> length xs"
    and "\<forall>j<lo. xs ! j < x" and "\<forall>j. hi \<le> j \<and> j < length xs \<longrightarrow> x < xs ! j"
  shows "(x \<in> set xs \<longrightarrow> (\<exists>i<length xs. search xs x lo hi = int i \<and> xs ! i = x)) \<and>
         (x \<notin> set xs \<longrightarrow>
            (\<exists>i\<le>length xs. search xs x lo hi = insertionPointReturnValue (int i) \<and>
               (\<forall>j<i. xs ! j < x) \<and> (\<forall>j. i \<le> j \<and> j < length xs \<longrightarrow> x < xs ! j)))"
  using assms
proof (induction xs x lo hi rule: search.induct)
  case (1 xs x lo hi)
  let ?P = "\<lambda>r. (x \<in> set xs \<longrightarrow> (\<exists>i<length xs. r = int i \<and> xs ! i = x)) \<and>
         (x \<notin> set xs \<longrightarrow>
            (\<exists>i\<le>length xs. r = insertionPointReturnValue (int i) \<and>
               (\<forall>j<i. xs ! j < x) \<and> (\<forall>j. i \<le> j \<and> j < length xs \<longrightarrow> x < xs ! j)))"
  show ?case
  proof (cases "lo < hi")
    case False
    with 1(4) have eq: "hi = lo" by simp
    have notin: "x \<notin> set xs"
    proof
      assume "x \<in> set xs"
      then obtain k where k: "k < length xs" "xs ! k = x" by (auto simp add: in_set_conv_nth)
      show False
      proof (cases "k < lo")
        case True
        with 1(6) have "xs ! k < x" by blast
        with k show False by simp
      next
        case False
        with eq k have "hi \<le> k \<and> k < length xs" by simp
        with 1(7) have "x < xs ! k" by blast
        with k show False by simp
      qed
    qed
    from False have s: "search xs x lo hi = insertionPointReturnValue (int lo)"
      by (simp add: search.simps)
    from 1(5) eq have "lo \<le> length xs" by simp
    with notin s 1(6) 1(7) eq show ?thesis by auto
  next
    case True
    define idx where "idx = (lo + hi) div 2"
    from True have b: "lo \<le> idx" "idx < hi" by (simp_all add: idx_def)
    with 1(5) have il: "idx < length xs" by simp
    show ?thesis
    proof (cases "xs ! idx = x")
      case hit: True
      with True have s: "search xs x lo hi = int idx"
        by (simp add: search.simps idx_def Let_def)
      from hit il have "x \<in> set xs" by auto
      with s hit il show ?thesis by auto
    next
      case miss: False
      show ?thesis
      proof (cases "xs ! idx < x")
        case less: True
        with True miss have s: "search xs x lo hi = search xs x (idx + 1) hi"
          by (simp add: search.simps idx_def Let_def)
        have below: "\<forall>j<idx + 1. xs ! j < x"
        proof (intro allI impI)
          fix j assume "j < idx + 1"
          then have "j \<le> idx" by simp
          with 1(3) il have "xs ! j \<le> xs ! idx" by (simp add: sorted_nth_mono)
          with less show "xs ! j < x" by simp
        qed
        from b have up: "idx + 1 \<le> hi" by simp
        have "?P (search xs x (idx + 1) hi)"
          by (rule 1(1) [OF True idx_def miss less 1(3) up 1(5) below 1(7)])
        with s show ?thesis by simp
      next
        case greater: False
        with miss have gt: "x < xs ! idx" by simp
        from True miss greater have s: "search xs x lo hi = search xs x lo idx"
          by (simp add: search.simps idx_def Let_def)
        have above: "\<forall>j. idx \<le> j \<and> j < length xs \<longrightarrow> x < xs ! j"
        proof (intro allI impI)
          fix j assume "idx \<le> j \<and> j < length xs"
          with 1(3) have "xs ! idx \<le> xs ! j" by (simp add: sorted_nth_mono)
          with gt show "x < xs ! j" by simp
        qed
        from b 1(5) have up: "idx \<le> length xs" by simp
        have "?P (search xs x lo idx)"
          by (rule 1(2) [OF True idx_def miss greater 1(3) b(1) up 1(6) above])
        with s show ?thesis by simp
      qed
    qed
  qed
qed

text \<open>
  C4. On a sorted sequence, \<open>binarySearch\<close> returns an index that holds the target when
  the target is present. When it is absent, it returns \<open>insertionPointReturnValue i\<close> for
  the insertion point \<open>i\<close>, between 0 and the length: all elements before \<open>i\<close> are smaller
  and all from \<open>i\<close> on are larger; applying \<open>insertionPointReturnValue\<close> to the result
  gives \<open>i\<close> back; and the result is no index at all, not even 0.
\<close>

theorem binarySearch_correct:
  assumes "sorted xs"
  shows "(x \<in> set xs \<longrightarrow> (\<exists>i<length xs. binarySearch xs x = int i \<and> xs ! i = x)) \<and>
         (x \<notin> set xs \<longrightarrow>
            (\<exists>i\<le>length xs. binarySearch xs x = insertionPointReturnValue (int i) \<and>
               insertionPointReturnValue (binarySearch xs x) = int i \<and>
               (\<forall>j<i. xs ! j < x) \<and> (\<forall>j. i \<le> j \<and> j < length xs \<longrightarrow> x < xs ! j) \<and>
               (\<forall>k. binarySearch xs x \<noteq> int k)))"
proof -
  have "(x \<in> set xs \<longrightarrow> (\<exists>i<length xs. search xs x 0 (length xs) = int i \<and> xs ! i = x)) \<and>
         (x \<notin> set xs \<longrightarrow>
            (\<exists>i\<le>length xs. search xs x 0 (length xs) = insertionPointReturnValue (int i) \<and>
               (\<forall>j<i. xs ! j < x) \<and> (\<forall>j. i \<le> j \<and> j < length xs \<longrightarrow> x < xs ! j)))"
    using assms by (intro search_correct) auto
  then show ?thesis
    unfolding binarySearch_def
    by (auto simp add: insertionPointReturnValue_def)
qed

theorem binarySearch_correct_witness:
  "sorted [3, 5, 7, 8, 9, 21, 34 :: int] \<and> binarySearch [3, 5, 7, 8, 9, 21, 34 :: int] 5 = 1 \<and>
   binarySearch [1, 2, 3 :: int] 4 = insertionPointReturnValue 3 \<and>
   binarySearch [1, 2, 3 :: int] 0 = insertionPointReturnValue 0 \<and>
   binarySearch [1, 2, 3 :: int] 1 = 0 \<and>
   insertionPointReturnValue (binarySearch [1, 2, 3 :: int] 0) = 0"
  using binarySearch_correct [of "[3, 5, 7, 8, 9, 21, 34 :: int]" 5]
    binarySearch_correct [of "[1, 2, 3 :: int]" 4]
    binarySearch_correct [of "[1, 2, 3 :: int]" 0]
    binarySearch_correct [of "[1, 2, 3 :: int]" 1]
  by (simp add: binarySearch_def search.simps insertionPointReturnValue_def)

section \<open>The scalar parsers on classified scalars\<close>

lemma digit_facts:
  assumes "isDigit c"
  shows "digitValue c < 10" and "\<not> isWhiteSpace c" and "\<not> isSign c"
    and "c \<noteq> CHR ''x''" and "c \<noteq> CHR ''X''" and "c \<noteq> CHR ''o''" and "c \<noteq> CHR ''I''"
  using assms by (auto simp add: isDigit_def digitValue_def isWhiteSpace_def isSign_def)

lemma octDigit_facts:
  assumes "isOctDigit c"
  shows "digitValue c < 8" and "\<not> isWhiteSpace c" and "\<not> isSign c"
  using assms by (auto simp add: isOctDigit_def digitValue_def isWhiteSpace_def isSign_def)

lemma hexDigit_facts:
  assumes "isHexDigit c"
  shows "digitValue c < 16"
  using assms by (auto simp add: isHexDigit_def digitValue_def)

lemma sign_not_space: "isSign c \<Longrightarrow> \<not> isWhiteSpace c"
  by (auto simp add: isSign_def isWhiteSpace_def)

lemma base10_parseInt: 
  assumes "base10 v" shows "parseInt v None \<noteq> NaN"
proof -
  define d where "d = dropSign v"
  from assms have d: "d \<noteq> []" "list_all isDigit d" by (simp_all add: base10_def d_def Let_def)
  then obtain c r where dc: "d = c # r" "isDigit c" by (cases d) auto
  have t: "dropWhile isWhiteSpace v = v"
  proof (cases v)
    case Nil then show ?thesis by simp
  next
    case (Cons a w)
    show ?thesis
    proof (cases "isSign a")
      case True
      with Cons show ?thesis by (simp add: sign_not_space)
    next
      case False
      with Cons dc have "a = c" by (simp add: d_def dropSign_def)
      with Cons dc(2) show ?thesis by (simp add: digit_facts)
    qed
  qed
  have nohex: "take 2 d \<noteq> ''0x''" "take 2 d \<noteq> ''0X''"
  proof -
    show "take 2 d \<noteq> ''0x''"
    proof
      assume "take 2 d = ''0x''"
      then obtain r' where "d = CHR ''0'' # CHR ''x'' # r'"
        by (cases d; cases "tl d") auto
      with d(2) show False by (simp add: isDigit_def)
    qed
    show "take 2 d \<noteq> ''0X''"
    proof
      assume "take 2 d = ''0X''"
      then obtain r' where "d = CHR ''0'' # CHR ''X'' # r'"
        by (cases d; cases "tl d") auto
      with d(2) show False by (simp add: isDigit_def)
    qed
  qed
  from dc have "takeWhile (\<lambda>c. digitValue c < 10) d \<noteq> []" by (simp add: digit_facts)
  with t nohex show ?thesis
    by (simp add: parseInt_def Let_def d_def [symmetric])
qed

lemma base16_parseInt:
  assumes "base16 v" shows "parseInt v None \<noteq> NaN"
proof -
  from assms obtain hs where v: "v = CHR ''0'' # CHR ''x'' # hs" and hs: "hs \<noteq> []" "list_all isHexDigit hs"
    by (cases v; cases "tl v") (auto simp add: base16_def)
  from hs obtain c r where "hs = c # r" "isHexDigit c" by (cases hs) auto
  then have "takeWhile (\<lambda>c. digitValue c < 16) hs \<noteq> []" by (simp add: hexDigit_facts)
  with v show ?thesis
    by (simp add: parseInt_def Let_def isWhiteSpace_def dropSign_def isSign_def)
qed

lemma base8_parseInt:
  assumes "base8 v" shows "parseInt (drop 2 v) (Some 8) \<noteq> NaN"
proof -
  define os where "os = drop 2 v"
  from assms have os: "os \<noteq> []" "list_all isOctDigit os" by (simp_all add: base8_def os_def)
  then obtain c r where oc: "os = c # r" "isOctDigit c" by (cases os) auto
  then have "takeWhile (\<lambda>c. digitValue c < 8) os \<noteq> []" by (simp add: octDigit_facts)
  with oc show ?thesis
    by (simp add: parseInt_def Let_def os_def [symmetric] octDigit_facts dropSign_def)
qed

lemma int_parseYamlInteger:
  assumes "base10 v \<or> base8 v \<or> base16 v"
  shows "\<exists>n. parseYamlInteger v = Inr n"
proof -
  have "safeParseYamlInteger v \<noteq> NaN"
  proof (cases "take 2 v = ''0o''")
    case True
    then obtain r where v: "v = CHR ''0'' # CHR ''o'' # r" by (cases v; cases "tl v") auto
    have "\<not> base10 v" using v by (simp add: base10_def dropSign_def isSign_def isDigit_def)
    moreover have "\<not> base16 v" using v by (simp add: base16_def)
    ultimately have "base8 v" using assms by blast
    with True show ?thesis by (simp add: safeParseYamlInteger_def base8_parseInt)
  next
    case False
    then have "\<not> base8 v" by (simp add: base8_def)
    with assms have "base10 v \<or> base16 v" by blast
    with False show ?thesis
      by (auto simp add: safeParseYamlInteger_def base10_parseInt base16_parseInt)
  qed
  then show ?thesis by (simp add: parseYamlInteger_def isNaN_def)
qed


lemma floatRe_parseFloat:
  assumes "floatRe v" shows "parseFloat v \<noteq> NaN"
proof -
  define u where "u = dropSign v"
  define ip where "ip = takeWhile isDigit u"
  define r where "r = dropWhile isDigit u"
  have u: "u = ip @ r" by (simp add: ip_def r_def)
  from assms have f: "if ip = [] then
           (case r of [] \<Rightarrow> False
            | c # r' \<Rightarrow> c = CHR ''.'' \<and> takeWhile isDigit r' \<noteq> [] \<and> exponentOpt (dropWhile isDigit r'))
         else
           (case r of [] \<Rightarrow> True
            | c # r' \<Rightarrow> if c = CHR ''.'' then exponentOpt (dropWhile isDigit r') else exponentOpt r)"
    unfolding floatRe_def Let_def u_def ip_def r_def .
  have head: "\<exists>c w. u = c # w \<and> (isDigit c \<or> c = CHR ''.'')"
  proof (cases "ip = []")
    case True
    with f obtain r' where "r = CHR ''.'' # r'" by (cases r) auto
    with True u show ?thesis by simp
  next
    case False
    then obtain c w where "ip = c # w" by (cases ip) auto
    moreover from this have "isDigit c"
      using set_takeWhileD [of c isDigit u] by (simp add: ip_def)
    ultimately show ?thesis using u by simp
  qed
  then obtain c w where cw: "u = c # w" "isDigit c \<or> c = CHR ''.''" by blast
  have c: "\<not> isWhiteSpace c \<and> \<not> isSign c \<and> c \<noteq> CHR ''I''"
  proof (cases "isDigit c")
    case True
    then show ?thesis by (simp add: digit_facts)
  next
    case False
    with cw(2) have "c = CHR ''.''" by simp
    then show ?thesis by (simp add: isWhiteSpace_def isSign_def)
  qed
  have t: "dropWhile isWhiteSpace v = v"
  proof (cases v)
    case Nil then show ?thesis by simp
  next
    case (Cons a z)
    show ?thesis
    proof (cases "isSign a")
      case True
      with Cons show ?thesis by (simp add: sign_not_space)
    next
      case False
      with Cons cw have "a = c" by (simp add: u_def dropSign_def)
      with Cons c show ?thesis by simp
    qed
  qed
  from cw c have noinf: "take 8 u \<noteq> ''Infinity''" by auto
  have digits: "\<not> (ip = [] \<and>
      (case r of [] \<Rightarrow> [] | c # r' \<Rightarrow> if c = CHR ''.'' then takeWhile isDigit r' else []) = [])"
  proof (cases "ip = []")
    case True
    with f obtain r' where "r = CHR ''.'' # r'" "takeWhile isDigit r' \<noteq> []" by (cases r) auto
    then show ?thesis by simp
  next
    case False
    then show ?thesis by simp
  qed
  from t noinf digits show ?thesis
    by (simp add: parseFloat_def Let_def u_def [symmetric] ip_def [symmetric] r_def [symmetric])
qed

lemma float_parseYamlFloat:
  assumes "floatRe v \<or> infinityRe v \<or> v \<in> set [''.nan'', ''.NaN'', ''.NAN'']"
  shows "\<exists>n. parseYamlFloat v = Inr n"
  using assms floatRe_parseFloat [of v]
  by (auto simp add: parseYamlFloat_def isNaN_def Let_def)

lemma bool_parseYamlBoolean:
  assumes "v \<in> set [''true'', ''True'', ''TRUE'', ''false'', ''False'', ''FALSE'']"
  shows "\<exists>b. parseYamlBoolean v = Inr b"
proof (cases "v \<in> set [''true'', ''True'', ''TRUE'']")
  case True
  then have "parseYamlBoolean v = Inr True" by (simp add: parseYamlBoolean_def)
  then show ?thesis by blast
next
  case False
  with assms have "v \<in> set [''false'', ''False'', ''FALSE'']" by simp
  with False have "parseYamlBoolean v = Inr False" by (simp add: parseYamlBoolean_def)
  then show ?thesis by blast
qed

lemma classified_text:
  "determineScalarType (Some n) = ScalarType_bool \<Longrightarrow>
     \<exists>v. value' n = Some v \<and> v \<in> set [''true'', ''True'', ''TRUE'', ''false'', ''False'', ''FALSE'']"
  "determineScalarType (Some n) = ScalarType_int \<Longrightarrow>
     \<exists>v. value' n = Some v \<and> (base10 v \<or> base8 v \<or> base16 v)"
  "determineScalarType (Some n) = ScalarType_float \<Longrightarrow>
     \<exists>v. value' n = Some v \<and> (floatRe v \<or> infinityRe v \<or> v \<in> set [''.nan'', ''.NaN'', ''.NAN''])"
  by (auto simp add: determineScalarType_def split: if_splits option.splits)

text \<open>
  The scalar case always returns a node: whenever the classifier answers \<open>bool\<close>, \<open>int\<close>
  or \<open>float\<close>, the matching parser accepts the text, so none of the three scalar parsers
  throws during normalization.
\<close>

theorem buildScalar_returns:
  "\<exists>a h'. buildScalar p sc h = Inr (Some a, h')"
proof (cases "determineScalarType (Some sc)")
  case ScalarType_null
  then show ?thesis by (simp add: buildScalar_def Let_def new_def)
next
  case ScalarType_bool
  from classified_text(1) [OF this] obtain v where "value' sc = Some v"
    "v \<in> set [''true'', ''True'', ''TRUE'', ''false'', ''False'', ''FALSE'']" by blast
  with bool_parseYamlBoolean [of v] ScalarType_bool show ?thesis
    by (auto simp add: buildScalar_def Let_def new_def)
next
  case ScalarType_int
  from classified_text(2) [OF this] obtain v where "value' sc = Some v"
    "base10 v \<or> base8 v \<or> base16 v" by blast
  with int_parseYamlInteger [of v] ScalarType_int show ?thesis
    by (auto simp add: buildScalar_def Let_def new_def)
next
  case ScalarType_float
  from classified_text(3) [OF this] obtain v where "value' sc = Some v"
    "floatRe v \<or> infinityRe v \<or> v \<in> set [''.nan'', ''.NaN'', ''.NAN'']" by blast
  with float_parseYamlFloat [of v] ScalarType_float show ?thesis
    by (auto simp add: buildScalar_def Let_def new_def)
next
  case ScalarType_string
  then show ?thesis by (simp add: buildScalar_def Let_def new_def)
qed

section \<open>What leaves \<open>parse\<close>\<close>

lemma build_only_TypeError:
  "recursivelyBuildAst p n h = Inl x \<longrightarrow> x = TypeError"
  "addProperties res ms h = Inl x \<longrightarrow> x = TypeError"
  "addItems res cnt its h = Inl x \<longrightarrow> x = TypeError"
proof (induction p n h and res ms h and res cnt its h rule: recursivelyBuildAst_addProperties_addItems.induct)
  case (1 p h)
  then show ?case by simp
next
  case (2 p s e mappings h)
  from 2 [of "(length h, h @ [ObjectASTNode p NoSegment s e])" "length h"
      "h @ [ObjectASTNode p NoSegment s e]"]
  show ?case by (simp add: new_def split: sum.splits)
next
  case (3 p s e key v h)
  define keyNode where "keyNode = length h"
  define h1 where "h1 = h @ [StringASTNode None NoSegment True (startPosition key) (endPosition key)]"
  define h2 where "h2 = setContent keyNode (StringData True (value' key)) h1"
  define result where "result = length h2"
  define h3 where "h3 = h2 @ [PropertyASTNode p keyNode h2]"
  define h4 where "h4 = setEnd result e h3"
  show ?case
  proof (cases v)
    case None
    then show ?thesis by (simp add: new_def Let_def)
  next
    case (Some vn)
    from 3 [of "(keyNode, h1)" keyNode h1 h2 "(result, h3)" result h3 h4 vn] Some
    have ih: "recursivelyBuildAst (Some result) (Some vn) h4 = Inl x \<longrightarrow> x = TypeError"
      by (simp add: new_def keyNode_def h1_def h2_def result_def h3_def h4_def)
    with Some show ?thesis
      by (auto simp add: new_def Let_def keyNode_def h1_def h2_def result_def h3_def h4_def
          split: sum.splits option.splits)
  qed
next
  case (4 p s e items h)
  from 4 [of "(length h, h @ [ArrayASTNode p NoSegment s e])" "length h"
      "h @ [ArrayASTNode p NoSegment s e]"]
  show ?case by (simp add: new_def split: sum.splits)
next
  case (5 p sc h)
  from buildScalar_returns [of p sc h] show ?case by auto
next
  case (6 p s e h)
  then show ?case by simp
next
  case (7 p s e h)
  then show ?case by simp
next
  case (8 result h)
  then show ?case by simp
next
  case (9 result mapping mappings h)
  show ?case
  proof (cases "recursivelyBuildAst (Some result) (Some mapping) h")
    case (Inl y)
    with 9(1) show ?thesis by simp
  next
    case (Inr pr)
    obtain node h1 where pr: "pr = (node, h1)" by (cases pr)
    from 9(2) [OF Inr [unfolded pr] refl] Inr pr show ?thesis by simp
  qed
next
  case (10 result count h)
  then show ?case by simp
next
  case (11 result count item items h)
  show ?case
  proof (cases "recursivelyBuildAst (Some result) item h")
    case (Inl y)
    with 11(1) show ?thesis by simp
  next
    case (Inr pr)
    obtain node h1 where pr: "pr = (node, h1)" by (cases pr)
    show ?thesis
    proof (cases node)
      case None
      with Inr pr show ?thesis by simp
    next
      case (Some itemNode)
      from 11(2) [OF Inr [unfolded pr Some] refl refl] Inr pr Some show ?thesis by simp
    qed
  qed
qed

lemma build_allPresent:
  "\<forall>m. n = Some m \<and> allPresent m \<longrightarrow>
     (\<exists>r h'. recursivelyBuildAst p n h = Inr (r, h') \<and> (r = None \<longleftrightarrow> isReference m))"
  "(\<forall>m \<in> set ms. allPresent m) \<longrightarrow> (\<exists>h'. addProperties res ms h = Inr h')"
  "(\<forall>item \<in> set its. case item of None \<Rightarrow> False | Some n \<Rightarrow> \<not> isReference n \<and> allPresent n) \<longrightarrow>
     (\<exists>h'. addItems res cnt its h = Inr h')"
proof (induction p n h and res ms h and res cnt its h rule: recursivelyBuildAst_addProperties_addItems.induct)
  case (1 p h)
  then show ?case by simp
next
  case (2 p s e mappings h)
  from 2 [of "(length h, h @ [ObjectASTNode p NoSegment s e])" "length h"
      "h @ [ObjectASTNode p NoSegment s e]"]
  show ?case by (auto simp add: new_def)
next
  case (3 p s e key v h)
  define keyNode where "keyNode = length h"
  define h1 where "h1 = h @ [StringASTNode None NoSegment True (startPosition key) (endPosition key)]"
  define h2 where "h2 = setContent keyNode (StringData True (value' key)) h1"
  define result where "result = length h2"
  define h3 where "h3 = h2 @ [PropertyASTNode p keyNode h2]"
  define h4 where "h4 = setEnd result e h3"
  show ?case
  proof (cases v)
    case None
    then show ?thesis by (simp add: new_def Let_def)
  next
    case (Some vn)
    show ?thesis
    proof (intro allI impI, elim conjE)
      fix m assume m: "Some (MAPPING s e key v) = Some m" and ap: "allPresent m"
      with Some have vn: "\<not> isReference vn" "allPresent vn" by auto
      from 3 [of "(keyNode, h1)" keyNode h1 h2 "(result, h3)" result h3 h4 vn] Some vn
      obtain r h5 where b: "recursivelyBuildAst (Some result) (Some vn) h4 = Inr (r, h5)"
        and r: "r \<noteq> None"
        by (auto simp add: new_def keyNode_def h1_def h2_def result_def h3_def h4_def)
      from r obtain valueNode where "r = Some valueNode" by auto
      with b Some m
      show "\<exists>r h'. recursivelyBuildAst p (Some (MAPPING s e key v)) h = Inr (r, h') \<and>
                   (r = None \<longleftrightarrow> isReference m)"
        by (auto simp add: new_def Let_def keyNode_def h1_def h2_def result_def h3_def h4_def)
    qed
  qed
next
  case (4 p s e items h)
  from 4 [of "(length h, h @ [ArrayASTNode p NoSegment s e])" "length h"
      "h @ [ArrayASTNode p NoSegment s e]"]
  show ?case by (auto simp add: new_def)
next
  case (5 p sc h)
  from buildScalar_returns [of p sc h] show ?case by auto
next
  case (6 p s e h)
  then show ?case by simp
next
  case (7 p s e h)
  then show ?case by simp
next
  case (8 result h)
  then show ?case by simp
next
  case (9 result mapping mappings h)
  show ?case
  proof
    assume a: "\<forall>m \<in> set (mapping # mappings). allPresent m"
    with 9(1) obtain node h1 where
      b: "recursivelyBuildAst (Some result) (Some mapping) h = Inr (node, h1)" by auto
    from 9(2) [OF b refl] a obtain h' where
      "addProperties result mappings (addProperty result node h1) = Inr h'" by auto
    with b show "\<exists>h'. addProperties result (mapping # mappings) h = Inr h'" by simp
  qed
next
  case (10 result count h)
  then show ?case by simp
next
  case (11 result count item items h)
  show ?case
  proof
    assume a: "\<forall>item \<in> set (item # items).
                 case item of None \<Rightarrow> False | Some n \<Rightarrow> \<not> isReference n \<and> allPresent n"
    then obtain m where m: "item = Some m" "\<not> isReference m" "allPresent m"
      by (cases item) auto
    with 11(1) obtain r h1 where
      b: "recursivelyBuildAst (Some result) item h = Inr (r, h1)" and r: "r \<noteq> None" by auto
    from r obtain itemNode where i: "r = Some itemNode" by auto
    from 11(2) [OF b [unfolded i] refl refl] a obtain h' where
      "addItems result (Suc count) items
         (addItem result itemNode (setLocation itemNode (Index count) h1)) = Inr h'" by auto
    with b i show "\<exists>h'. addItems result count (item # items) h = Inr h'" by simp
  qed
qed

text \<open>
  The only exception that leaves \<open>parse\<close> is the \<open>TypeError\<close> of an absent node; the strings
  thrown by the scalar parsers never do.
\<close>

theorem parse_only_TypeError:
  "parse safeLoad text' = Inl x \<Longrightarrow> x = TypeError"
  using build_only_TypeError(1)
  by (auto simp add: parse_def split: option.splits sum.splits)

theorem parse_only_TypeError_witness:
  "parse (\<lambda>t. Some (SEQ 0 1 [None], [])) ''-'' = Inl TypeError"
proof -
  obtain x where x: "parse (\<lambda>t. Some (SEQ 0 1 [None], [])) ''-'' = Inl x"
    by (simp add: parse_def store_defs)
  from parse_only_TypeError [OF x] x show ?thesis by simp
qed

text \<open>
  For a text whose tree has every sequence item and every explicit mapping value, none
  of them a reference node, \<open>parse\<close> returns a document; its root is absent exactly when
  the tree itself is a reference node.
\<close>

theorem parse_returns_document:
  assumes "safeLoad text' = Some (yamlDoc, yamlErrors)" and "allPresent yamlDoc"
  shows "\<exists>doc. parse safeLoad text' = Inr doc \<and> (root doc = None \<longleftrightarrow> isReference yamlDoc)"
proof -
  from build_allPresent(1) [of "Some yamlDoc" None "[]"] assms(2)
  obtain r h' where "recursivelyBuildAst None (Some yamlDoc) [] = Inr (r, h')"
    "r = None \<longleftrightarrow> isReference yamlDoc" by auto
  with assms(1) show ?thesis by (simp add: parse_def)
qed

theorem parse_returns_document_witness:
  "parse exampleLoad duplicateText = Inr duplicateDocument \<and> root duplicateDocument = Some 0"
proof -
  obtain n es where l: "exampleLoad duplicateText = Some (n, es)" and n: "allPresent n"
    "\<not> isReference n"
    by (simp add: example_defs plain_def quoted_def)
  have p: "parse exampleLoad duplicateText = Inr duplicateDocument"
    by (simp add: parse_def example_defs store_defs scalar_defs duplicateDocument_def)
  from parse_returns_document [of exampleLoad duplicateText n es, OF l n(1)] n(2) p show ?thesis
    by (simp add: duplicateDocument_def)
qed

end
